theory Spec2Isabelle
  imports Main "HOL-Library.Word"
begin

section \<open>The USB mapper (usb_mapper.c)\<close>

text \<open>
  The library walks the USB hub interfaces that Windows lists, asks every port of every hub
  for its connection state and keeps one \<open>USBDeviceInfo\<close> per connected port in a global
  array of \<open>MAX_DEVICES\<close> slots. Three functions are exported: \<open>EnumerateUSBDevices\<close>,
  \<open>GetDeviceInfo\<close> and \<open>GetDeviceCount\<close>.

  The operating system is not part of the program. It is modelled by the answers it gives:
  a value of type \<open>hub_interface list option\<close> holds, for every call the program can
  make, what that call returns. C \<open>int\<close> values are \<open>int\<close> (none of them can
  overflow: the count stays within 0..256, a port within 1..256); the \<open>DWORD\<close> hub counter
  is converted to \<open>int\<close> where the source stores it. A \<open>char\<close> array is modelled by the
  C string it holds (the bytes before the first NUL).
\<close>

subsection \<open>Constants and the record type\<close>

definition MAX_DEVICES :: int where
  "MAX_DEVICES = 256"

definition MAX_PATH_LEN :: nat where
  "MAX_PATH_LEN = 512"

definition MAX_DESC_LEN :: nat where
  "MAX_DESC_LEN = 256"

record USBDeviceInfo =
  hubIndex :: int
  portNumber :: int
  deviceDesc :: string
  devicePath :: string
  isHub :: int
  speed :: int
  vendorId :: "16 word"
  productId :: "16 word"

text \<open>A slot after \<open>memset(g_devices, 0, sizeof(g_devices))\<close>.\<close>

definition zero_device :: USBDeviceInfo where
  "zero_device = \<lparr>hubIndex = 0, portNumber = 0, deviceDesc = [], devicePath = [],
     isHub = 0, speed = 0, vendorId = 0, productId = 0\<rparr>"

subsection \<open>Platform types (usbioctl.h, usbspec.h)\<close>

datatype USB_CONNECTION_STATUS =
    NoDeviceConnected
  | DeviceConnected
  | DeviceFailedEnumeration
  | DeviceGeneralFailure
  | DeviceCausedOvercurrent
  | DeviceNotEnoughPower
  | DeviceNotEnoughBandwidth
  | DeviceHubNestedTooDeeply
  | DeviceInLegacyHub
  | DeviceEnumerating
  | DeviceReset

text \<open>
  The fields of \<open>USB_NODE_CONNECTION_INFORMATION_EX\<close> that the program reads. \<open>Speed\<close> and
  \<open>DeviceIsHub\<close> are bytes, the two identifiers are 16-bit.
\<close>

record USB_NODE_CONNECTION_INFORMATION_EX =
  idVendor :: "16 word"
  idProduct :: "16 word"
  Speed :: "8 word"
  DeviceIsHub :: "8 word"
  ConnectionStatus :: USB_CONNECTION_STATUS

text \<open>The values of the enumeration \<open>USB_DEVICE_SPEED\<close> in the platform header.\<close>

definition UsbLowSpeed :: "8 word" where
  "UsbLowSpeed = 0"

definition UsbFullSpeed :: "8 word" where
  "UsbFullSpeed = 1"

definition UsbHighSpeed :: "8 word" where
  "UsbHighSpeed = 2"

definition UsbSuperSpeed :: "8 word" where
  "UsbSuperSpeed = 3"

subsection \<open>The operating system's answers\<close>

text \<open>
  What a call of \<open>SetupDiGetDeviceRegistryPropertyA\<close> does: the value it returns, and the
  C string it leaves in the caller's buffer (\<open>None\<close> when it does not write to the
  buffer). Nothing ties the two: a call that fails may have written to the buffer.
\<close>

record property_reply =
  reply_ok :: bool
  reply_text :: "string option"

text \<open>
  One listed hub interface: the device path (\<open>None\<close> when
  \<open>SetupDiGetDeviceInterfaceDetailA\<close> fails), whether \<open>CreateFileA\<close> yields a valid
  handle, the port count of the node-information request (\<open>None\<close> when the request fails),
  the answer of the connection request for each port index (\<open>None\<close> when it fails), and
  what the lookup of \<open>SPDRP_DEVICEDESC\<close> does when it is called while the given port is
  handled.
\<close>

record hub_interface =
  interface_detail :: "string option"
  handle_valid :: bool
  bNumberOfPorts :: "8 word option"
  connection_info :: "int \<Rightarrow> USB_NODE_CONNECTION_INFORMATION_EX option"
  device_desc :: "int \<Rightarrow> property_reply"

text \<open>
  \<open>SetupDiGetClassDevs\<close> gives the list of hub interfaces, or \<open>None\<close> for
  \<open>INVALID_HANDLE_VALUE\<close>. The list is indexed by a \<open>DWORD\<close>, so it has fewer than
  \<open>2 ^ 32\<close> members and the hub counter of the program does not wrap.
\<close>

type_synonym device_info_set = "hub_interface list"

subsection \<open>Program state\<close>

text \<open>The two \<open>DeviceIoControl\<close> requests of the program.\<close>

datatype ioctl =
    IOCTL_USB_GET_NODE_INFORMATION
  | IOCTL_USB_GET_NODE_CONNECTION_INFORMATION_EX int

text \<open>
  The globals \<open>g_devices\<close> (256 slots) and \<open>g_deviceCount\<close>, and the requests sent to
  the hubs so far (hub counter and request, oldest first), which is how the outside sees
  how far a traversal went.
\<close>

record state =
  g_devices :: "USBDeviceInfo list"
  g_deviceCount :: int
  requests :: "(nat \<times> ioctl) list"

definition initial_state :: state where
  "initial_state = \<lparr>g_devices = replicate (nat MAX_DEVICES) zero_device,
     g_deviceCount = 0, requests = []\<rparr>"

subsection \<open>The helper functions\<close>

text \<open>
  \<open>GetDeviceProperty\<close> passes the buffer to \<open>SetupDiGetDeviceRegistryPropertyA\<close> and
  returns whether that call succeeded. The result is the return value and the buffer after
  the call.
\<close>

definition GetDeviceProperty :: "hub_interface \<Rightarrow> int \<Rightarrow> string \<Rightarrow> bool \<times> string" where
  "GetDeviceProperty h port buffer =
     (let r = device_desc h port
      in (if reply_ok r then True else False,
          (case reply_text r of None \<Rightarrow> buffer | Some written \<Rightarrow> written)))"

text \<open>
  The handle that \<open>OpenDeviceHandle\<close> returns is only compared with
  \<open>INVALID_HANDLE_VALUE\<close>: the model returns whether it is valid.
\<close>

definition OpenDeviceHandle :: "hub_interface \<Rightarrow> bool" where
  "OpenDeviceHandle h = handle_valid h"

text \<open>
  The two requests return the part of the answer that the program reads, or \<open>None\<close> when
  \<open>DeviceIoControl\<close> fails, and record that the request was sent.
\<close>

definition GetHubNodeInfo :: "hub_interface \<Rightarrow> nat \<Rightarrow> state \<Rightarrow> 8 word option \<times> state" where
  "GetHubNodeInfo h hub st =
     (bNumberOfPorts h,
      st\<lparr>requests := requests st @ [(hub, IOCTL_USB_GET_NODE_INFORMATION)]\<rparr>)"

definition GetPortConnectorProperties ::
  "hub_interface \<Rightarrow> nat \<Rightarrow> int \<Rightarrow> state \<Rightarrow> USB_NODE_CONNECTION_INFORMATION_EX option \<times> state" where
  "GetPortConnectorProperties h hub portIndex st =
     (connection_info h portIndex,
      st\<lparr>requests := requests st @ [(hub, IOCTL_USB_GET_NODE_CONNECTION_INFORMATION_EX portIndex)]\<rparr>)"

subsection \<open>Formatting\<close>

definition digit_char :: "nat \<Rightarrow> char" where
  "digit_char d = ''0123456789'' ! d"

fun decimal :: "nat \<Rightarrow> string" where
  "decimal n = (if n < 10 then [digit_char n] else decimal (n div 10) @ [digit_char (n mod 10)])"

declare decimal.simps [simp del]

text \<open>The conversion \<open>%d\<close>.\<close>

definition format_d :: "int \<Rightarrow> string" where
  "format_d i = (if i < 0 then CHR ''-'' # decimal (nat (- i)) else decimal (nat i))"

text \<open>
  \<open>snprintf(dev->deviceDesc, MAX_DESC_LEN, "Hub: %s, Port: %d", hubDesc, port)\<close>: at most
  \<open>MAX_DESC_LEN - 1\<close> characters are kept.
\<close>

definition snprintf_desc :: "string \<Rightarrow> int \<Rightarrow> string" where
  "snprintf_desc hubDesc port =
     take (MAX_DESC_LEN - 1) (''Hub: '' @ hubDesc @ '', Port: '' @ format_d port)"

text \<open>
  \<open>strncpy(dev->devicePath, path, MAX_PATH_LEN - 1)\<close>: the last byte of the field is never
  written and is 0 since the start of the program, so the field holds the first
  \<open>MAX_PATH_LEN - 1\<close> characters of the path.
\<close>

definition strncpy_path :: "string \<Rightarrow> string" where
  "strncpy_path path = take (MAX_PATH_LEN - 1) path"

text \<open>The \<open>switch\<close> on \<open>connInfo.Speed\<close>.\<close>

definition map_speed :: "8 word \<Rightarrow> int" where
  "map_speed s =
     (if s = UsbLowSpeed then 0
      else if s = UsbFullSpeed then 1
      else if s = UsbHighSpeed then 2
      else if s = UsbSuperSpeed then 3
      else - 1)"

text \<open>\<open>dev->hubIndex = hubIndex\<close>: a \<open>DWORD\<close> stored into an \<open>int\<close>.\<close>

definition DWORD_to_int :: "nat \<Rightarrow> int" where
  "DWORD_to_int n = sint (word_of_nat n :: 32 word)"

subsection \<open>EnumerateUSBDevices\<close>

text \<open>The block that fills \<open>g_devices[g_deviceCount]\<close> and increments the count.\<close>

definition store_device ::
  "hub_interface \<Rightarrow> string \<Rightarrow> nat \<Rightarrow> int \<Rightarrow> USB_NODE_CONNECTION_INFORMATION_EX \<Rightarrow> state \<Rightarrow> state" where
  "store_device h path hub port connInfo st =
     (let n = nat (g_deviceCount st);
          dev = g_devices st ! n;
          dev = dev\<lparr>hubIndex := DWORD_to_int hub,
                    portNumber := port,
                    isHub := (if DeviceIsHub connInfo \<noteq> 0 then 1 else 0),
                    vendorId := idVendor connInfo,
                    productId := idProduct connInfo,
                    speed := map_speed (Speed connInfo)\<rparr>;
          hubDesc = snd (GetDeviceProperty h port []);
          dev = dev\<lparr>deviceDesc := snprintf_desc hubDesc port,
                    devicePath := strncpy_path path\<rparr>
      in st\<lparr>g_devices := (g_devices st)[n := dev],
            g_deviceCount := g_deviceCount st + 1\<rparr>)"

text \<open>The body of the \<open>for\<close> loop over the ports.\<close>

definition port_body :: "hub_interface \<Rightarrow> string \<Rightarrow> nat \<Rightarrow> int \<Rightarrow> state \<Rightarrow> state" where
  "port_body h path hub port st =
     (case GetPortConnectorProperties h hub port st of
        (None, st1) \<Rightarrow> st1
      | (Some connInfo, st1) \<Rightarrow>
          if ConnectionStatus connInfo = DeviceConnected then
            if g_deviceCount st1 < MAX_DEVICES then store_device h path hub port connInfo st1
            else st1
          else st1)"

text \<open>\<open>for (int port = 1; port <= numPorts; port++)\<close>, entered with the current \<open>port\<close>.\<close>

function port_loop :: "hub_interface \<Rightarrow> string \<Rightarrow> nat \<Rightarrow> int \<Rightarrow> int \<Rightarrow> state \<Rightarrow> state" where
  "port_loop h path hub port numPorts st =
     (if port \<le> numPorts
      then port_loop h path hub (port + 1) numPorts (port_body h path hub port st)
      else st)"
  by pat_completeness auto
termination
  by (relation "measure (\<lambda>(h, path, hub, port, numPorts, st). nat (numPorts + 1 - port))") auto

declare port_loop.simps [simp del]

text \<open>The body of the \<open>while\<close> loop over the hubs, without the increment of the counter.\<close>

definition hub_body :: "hub_interface \<Rightarrow> nat \<Rightarrow> state \<Rightarrow> state" where
  "hub_body h hub st =
     (case interface_detail h of
        None \<Rightarrow> st
      | Some path \<Rightarrow>
          if OpenDeviceHandle h then
            (case GetHubNodeInfo h hub st of
               (None, st1) \<Rightarrow> st1
             | (Some n, st1) \<Rightarrow> port_loop h path hub 1 (uint n) st1)
          else st)"

text \<open>
  \<open>SetupDiEnumDeviceInterfaces\<close> with member index \<open>hubIndex\<close>: the member, or \<open>None\<close>
  past the end of the list.
\<close>

definition SetupDiEnumDeviceInterfaces :: "device_info_set \<Rightarrow> nat \<Rightarrow> hub_interface option" where
  "SetupDiEnumDeviceInterfaces deviceInfoSet i =
     (if i < length deviceInfoSet then Some (deviceInfoSet ! i) else None)"

function hub_loop :: "device_info_set \<Rightarrow> nat \<Rightarrow> state \<Rightarrow> state" where
  "hub_loop deviceInfoSet hub st =
     (case SetupDiEnumDeviceInterfaces deviceInfoSet hub of
        None \<Rightarrow> st
      | Some h \<Rightarrow> hub_loop deviceInfoSet (hub + 1) (hub_body h hub st))"
  by pat_completeness auto
termination
  by (relation "measure (\<lambda>(deviceInfoSet, hub, st). length deviceInfoSet - hub)")
     (auto simp: SetupDiEnumDeviceInterfaces_def split: if_splits)

declare hub_loop.simps [simp del]

definition EnumerateUSBDevices :: "device_info_set option \<Rightarrow> state \<Rightarrow> int \<times> state" where
  "EnumerateUSBDevices SetupDiGetClassDevs st =
     (let st0 = st\<lparr>g_deviceCount := 0,
                   g_devices := replicate (nat MAX_DEVICES) zero_device\<rparr>
      in case SetupDiGetClassDevs of
           None \<Rightarrow> (- 1, st0)
         | Some deviceInfoSet \<Rightarrow>
             (let st1 = hub_loop deviceInfoSet 0 st0 in (g_deviceCount st1, st1)))"

subsection \<open>GetDeviceInfo and GetDeviceCount\<close>

text \<open>
  The output pointer is \<open>None\<close> for \<open>NULL\<close>, else the record it points to. The result is
  the return value, the output buffer after the call and the state after the call.
\<close>

definition GetDeviceInfo ::
  "state \<Rightarrow> int \<Rightarrow> USBDeviceInfo option \<Rightarrow> int \<times> USBDeviceInfo option \<times> state" where
  "GetDeviceInfo st index outInfo =
     (if index < 0 \<or> index \<ge> g_deviceCount st \<or> outInfo = None then (0, outInfo, st)
      else (1, Some (g_devices st ! nat index), st))"

definition GetDeviceCount :: "state \<Rightarrow> int" where
  "GetDeviceCount st = g_deviceCount st"

subsection \<open>One pass as a list of records\<close>

text \<open>
  The definitions of this section describe a pass as a function of the operating system's
  answers alone; the lemmas below prove that the loops compute exactly this. A port is
  connected when its connection request succeeds and reports \<open>DeviceConnected\<close>.
\<close>

definition port_connected :: "hub_interface \<Rightarrow> int \<Rightarrow> bool" where
  "port_connected h p =
     (case connection_info h p of
        None \<Rightarrow> False
      | Some connInfo \<Rightarrow> ConnectionStatus connInfo = DeviceConnected)"

text \<open>The ports that are queried on a hub: none unless path, handle and port count are there.\<close>

definition hub_ports :: "hub_interface \<Rightarrow> int list" where
  "hub_ports h =
     (case interface_detail h of
        None \<Rightarrow> []
      | Some path \<Rightarrow>
          if handle_valid h then
            (case bNumberOfPorts h of None \<Rightarrow> [] | Some n \<Rightarrow> [1..uint n])
          else [])"

definition device_record ::
  "hub_interface \<Rightarrow> string \<Rightarrow> nat \<Rightarrow> int \<Rightarrow> USB_NODE_CONNECTION_INFORMATION_EX \<Rightarrow> USBDeviceInfo" where
  "device_record h path hub port connInfo =
     \<lparr>hubIndex = DWORD_to_int hub,
      portNumber = port,
      deviceDesc = snprintf_desc (snd (GetDeviceProperty h port [])) port,
      devicePath = strncpy_path path,
      isHub = (if DeviceIsHub connInfo \<noteq> 0 then 1 else 0),
      speed = map_speed (Speed connInfo),
      vendorId = idVendor connInfo,
      productId = idProduct connInfo\<rparr>"

definition port_records :: "hub_interface \<Rightarrow> string \<Rightarrow> nat \<Rightarrow> int \<Rightarrow> USBDeviceInfo list" where
  "port_records h path hub port =
     (case connection_info h port of
        None \<Rightarrow> []
      | Some connInfo \<Rightarrow>
          if ConnectionStatus connInfo = DeviceConnected
          then [device_record h path hub port connInfo] else [])"

definition hub_records :: "hub_interface \<Rightarrow> nat \<Rightarrow> USBDeviceInfo list" where
  "hub_records h hub =
     (case interface_detail h of
        None \<Rightarrow> []
      | Some path \<Rightarrow> concat (map (port_records h path hub) (hub_ports h)))"

definition hub_requests :: "hub_interface \<Rightarrow> nat \<Rightarrow> (nat \<times> ioctl) list" where
  "hub_requests h hub =
     (case interface_detail h of
        None \<Rightarrow> []
      | Some path \<Rightarrow>
          if handle_valid h then
            (hub, IOCTL_USB_GET_NODE_INFORMATION) #
            map (\<lambda>p. (hub, IOCTL_USB_GET_NODE_CONNECTION_INFORMATION_EX p)) (hub_ports h)
          else [])"

text \<open>The hubs from listing position \<open>i\<close> on.\<close>

definition records_from :: "nat \<Rightarrow> hub_interface list \<Rightarrow> USBDeviceInfo list" where
  "records_from i hubs = concat (map (\<lambda>(k, h). hub_records h k) (enumerate i hubs))"

definition requests_from :: "nat \<Rightarrow> hub_interface list \<Rightarrow> (nat \<times> ioctl) list" where
  "requests_from i hubs = concat (map (\<lambda>(k, h). hub_requests h k) (enumerate i hubs))"

text \<open>
  The records of all connected ports in traversal order, however many there are, and the
  requests of a whole pass.
\<close>

definition pass_records :: "hub_interface list \<Rightarrow> USBDeviceInfo list" where
  "pass_records hubs = records_from 0 hubs"

definition pass_requests :: "hub_interface list \<Rightarrow> (nat \<times> ioctl) list" where
  "pass_requests hubs = requests_from 0 hubs"

text \<open>
  The state in which the store holds the first \<open>MAX_DEVICES\<close> records of \<open>rs\<close>, the other
  slots are zero and the requests sent are \<open>reqs\<close>.
\<close>

definition store_of :: "USBDeviceInfo list \<Rightarrow> (nat \<times> ioctl) list \<Rightarrow> state" where
  "store_of rs reqs =
     \<lparr>g_devices = take 256 rs @ replicate (256 - length rs) zero_device,
      g_deviceCount = int (min 256 (length rs)),
      requests = reqs\<rparr>"

text \<open>The records that \<open>GetDeviceInfo\<close> can return: the slots below the count.\<close>

definition stored :: "state \<Rightarrow> USBDeviceInfo list" where
  "stored st = take (nat (g_deviceCount st)) (g_devices st)"

text \<open>
  A hub has failed when its path is not resolved, it cannot be opened or its
  node-information request fails.
\<close>

definition hub_failed :: "hub_interface \<Rightarrow> bool" where
  "hub_failed h \<longleftrightarrow> interface_detail h = None \<or> \<not> handle_valid h \<or> bNumberOfPorts h = None"

text \<open>
  The connected ports of a listing in traversal order, as pairs of listing position and port
  number.
\<close>

definition connected_ports :: "hub_interface list \<Rightarrow> (nat \<times> int) list" where
  "connected_ports hubs =
     concat (map (\<lambda>(k, h). map (Pair k) (filter (port_connected h) (hub_ports h)))
       (enumerate 0 hubs))"

text \<open>A hub whose answers for port \<open>p\<close> are replaced by \<open>x\<close> and \<open>y\<close>.\<close>

definition with_port_answer ::
  "hub_interface \<Rightarrow> int \<Rightarrow> USB_NODE_CONNECTION_INFORMATION_EX option \<Rightarrow> property_reply \<Rightarrow>
     hub_interface" where
  "with_port_answer h p x y =
     h\<lparr>connection_info := (connection_info h)(p := x), device_desc := (device_desc h)(p := y)\<rparr>"

subsection \<open>Example systems\<close>

text \<open>
  The answers of some small systems, among them scenario B of the specification: one hub
  with four ports, a high-speed device on port 1 and a full-speed device on port 3.
\<close>

definition described :: "string \<Rightarrow> property_reply" where
  "described name = \<lparr>reply_ok = True, reply_text = Some name\<rparr>"

definition lookup_failed :: property_reply where
  "lookup_failed = \<lparr>reply_ok = False, reply_text = None\<rparr>"

definition device_reply :: "16 word \<Rightarrow> 16 word \<Rightarrow> 8 word \<Rightarrow> USB_NODE_CONNECTION_INFORMATION_EX" where
  "device_reply vid pid spd =
     \<lparr>idVendor = vid, idProduct = pid, Speed = spd, DeviceIsHub = 0,
      ConnectionStatus = DeviceConnected\<rparr>"

definition empty_reply :: USB_NODE_CONNECTION_INFORMATION_EX where
  "empty_reply =
     \<lparr>idVendor = 0, idProduct = 0, Speed = 0, DeviceIsHub = 0,
      ConnectionStatus = NoDeviceConnected\<rparr>"

definition scenario_B_hub :: hub_interface where
  "scenario_B_hub =
     \<lparr>interface_detail = Some ''USB#ROOT_HUB30'',
      handle_valid = True,
      bNumberOfPorts = Some 4,
      connection_info = (\<lambda>p.
        if p = 1 then Some (device_reply 0x1234 0x5678 UsbHighSpeed)
        else if p = 3 then Some (device_reply 0xAAAA 0xBBBB UsbFullSpeed)
        else Some empty_reply),
      device_desc = (\<lambda>p. described ''USB Root Hub'')\<rparr>"

text \<open>Five hubs, each with one kind of failure: path, handle, port count, ports, description.\<close>

definition unreachable_hubs :: "hub_interface list" where
  "unreachable_hubs =
     [scenario_B_hub\<lparr>interface_detail := None\<rparr>,
      scenario_B_hub\<lparr>handle_valid := False\<rparr>,
      scenario_B_hub\<lparr>bNumberOfPorts := None\<rparr>,
      scenario_B_hub\<lparr>connection_info := (\<lambda>p. None)\<rparr>,
      scenario_B_hub\<lparr>device_desc := (\<lambda>p. lookup_failed)\<rparr>]"

text \<open>The same hub with two ports only, and the state that a pass over scenario B leaves.\<close>

definition one_device_hub :: hub_interface where
  "one_device_hub = scenario_B_hub\<lparr>bNumberOfPorts := Some 2\<rparr>"

definition after_scenario_B :: state where
  "after_scenario_B = snd (EnumerateUSBDevices (Some [scenario_B_hub]) initial_state)"

text \<open>
  Scenario C: three hubs, the second of which cannot be opened. Scenario D: two hubs with 200
  ports each and a device on every port, more than the store holds.
\<close>

definition scenario_C_hubs :: "hub_interface list" where
  "scenario_C_hubs =
     [one_device_hub, one_device_hub\<lparr>handle_valid := False\<rparr>, one_device_hub]"

definition full_hub :: hub_interface where
  "full_hub =
     \<lparr>interface_detail = Some ''USB#ROOT_HUB30'',
      handle_valid = True,
      bNumberOfPorts = Some 200,
      connection_info = (\<lambda>p. Some (device_reply 0x1234 0x5678 UsbSuperSpeed)),
      device_desc = (\<lambda>p. described ''USB Root Hub'')\<rparr>"

definition scenario_D_hubs :: "hub_interface list" where
  "scenario_D_hubs = [full_hub, full_hub]"

text \<open>
  Scenario B on a hub whose description lookup fails without writing to the buffer, and on
  a hub whose lookup fails after it has written a part of the description.
\<close>

definition undescribed_hub :: hub_interface where
  "undescribed_hub = scenario_B_hub\<lparr>device_desc := (\<lambda>p. lookup_failed)\<rparr>"

definition partial_hub :: hub_interface where
  "partial_hub =
     scenario_B_hub\<lparr>device_desc := (\<lambda>p. \<lparr>reply_ok = False, reply_text = Some ''PARTIAL''\<rparr>)\<rparr>"

section \<open>Evaluation\<close>

lemmas pass_eval =
  EnumerateUSBDevices_def hub_loop.simps hub_body_def port_loop.simps port_body_def
  store_device_def SetupDiEnumDeviceInterfaces_def OpenDeviceHandle_def GetHubNodeInfo_def
  GetPortConnectorProperties_def GetDeviceProperty_def MAX_DEVICES_def MAX_DESC_LEN_def
  MAX_PATH_LEN_def initial_state_def zero_device_def snprintf_desc_def strncpy_path_def
  format_d_def decimal.simps digit_char_def map_speed_def DWORD_to_int_def
  UsbLowSpeed_def UsbFullSpeed_def UsbHighSpeed_def UsbSuperSpeed_def
  GetDeviceInfo_def GetDeviceCount_def stored_def
  device_reply_def empty_reply_def scenario_B_hub_def
  unreachable_hubs_def one_device_hub_def after_scenario_B_def
  scenario_C_hubs_def full_hub_def scenario_D_hubs_def
  undescribed_hub_def with_port_answer_def described_def lookup_failed_def partial_hub_def

section \<open>The loops compute the list of records\<close>

text \<open>
  Started in a state whose store holds the records \<open>rs\<close>, each loop ends in the state whose
  store holds \<open>rs\<close> followed by the records of the ports or hubs it went through, as far
  as they fit.
\<close>

lemma port_body_store:
  "port_body h path hub port (store_of rs reqs) =
     store_of (rs @ port_records h path hub port)
       (reqs @ [(hub, IOCTL_USB_GET_NODE_CONNECTION_INFORMATION_EX port)])"
proof (cases "connection_info h port")
  case None
  then show ?thesis
    by (simp add: port_body_def GetPortConnectorProperties_def port_records_def store_of_def)
next
  case (Some ci)
  show ?thesis
  proof (cases "ConnectionStatus ci = DeviceConnected")
    case False
    with Some show ?thesis
      by (simp add: port_body_def GetPortConnectorProperties_def port_records_def store_of_def)
  next
    case True
    show ?thesis
    proof (cases "length rs < 256")
      case False
      with Some True show ?thesis
        by (simp add: port_body_def GetPortConnectorProperties_def port_records_def store_of_def MAX_DEVICES_def)
    next
      case lt: True
      then obtain m where m: "256 - length rs = Suc m" "255 - length rs = m"
        by (cases "256 - length rs") auto
      have upd: "(rs @ replicate (Suc m) zero_device)[length rs := r] = rs @ r # replicate m zero_device" for r
        by (simp add: list_update_append)
      have zd: "zero_device\<lparr>hubIndex := a, portNumber := b, isHub := c, vendorId := d, productId := e, speed := f,
           deviceDesc := g, devicePath := i\<rparr> = \<lparr>hubIndex = a, portNumber = b, deviceDesc = g, devicePath = i,
     isHub = c, speed = f, vendorId = d, productId = e\<rparr>" for a b c d e f g i
        by (simp add: zero_device_def)
      from Some True lt m show ?thesis
        by (simp add: port_body_def GetPortConnectorProperties_def port_records_def store_of_def MAX_DEVICES_def
            store_device_def Let_def nth_append upd zd device_record_def min_def)
    qed
  qed
qed

lemma port_loop_store:
  "port_loop h path hub port numPorts (store_of rs reqs) =
     store_of (rs @ concat (map (port_records h path hub) [port..numPorts]))
       (reqs @ map (\<lambda>p. (hub, IOCTL_USB_GET_NODE_CONNECTION_INFORMATION_EX p)) [port..numPorts])"
proof (induction h path hub port numPorts "store_of rs reqs" arbitrary: rs reqs rule: port_loop.induct)
  case (1 h path hub port numPorts)
  show ?case
  proof (cases "port \<le> numPorts")
    case True
    then have "[port..numPorts] = port # [port + 1..numPorts]"
      by (simp add: upto_rec1)
    with True "1" [OF True port_body_store] show ?thesis
      by (simp add: port_loop.simps [of h path hub port] port_body_store)
  next
    case False
    then show ?thesis
      by (simp add: port_loop.simps [of h path hub port])
  qed
qed

lemma node_info_store:
  "GetHubNodeInfo h hub (store_of rs reqs) =
     (bNumberOfPorts h, store_of rs (reqs @ [(hub, IOCTL_USB_GET_NODE_INFORMATION)]))"
  by (simp add: GetHubNodeInfo_def store_of_def)

lemma hub_body_store:
  "hub_body h hub (store_of rs reqs) = store_of (rs @ hub_records h hub) (reqs @ hub_requests h hub)"
  by (simp add: hub_body_def hub_records_def hub_requests_def hub_ports_def OpenDeviceHandle_def
      node_info_store port_loop_store split: option.split)

lemma hub_loop_store:
  "hub_loop hubs i (store_of rs reqs) =
     store_of (rs @ records_from i (drop i hubs)) (reqs @ requests_from i (drop i hubs))"
proof (induction hubs i "store_of rs reqs" arbitrary: rs reqs rule: hub_loop.induct)
  case (1 hubs i)
  show ?case
  proof (cases "i < length hubs")
    case True
    then have d: "drop i hubs = hubs ! i # drop (Suc i) hubs"
      by (simp add: Cons_nth_drop_Suc)
    from True have e: "SetupDiEnumDeviceInterfaces hubs i = Some (hubs ! i)"
      by (simp add: SetupDiEnumDeviceInterfaces_def)
    from "1" [OF e hub_body_store] e show ?thesis
      by (simp add: hub_loop.simps [of hubs i] hub_body_store d records_from_def requests_from_def)
  next
    case False
    then show ?thesis
      by (simp add: hub_loop.simps [of hubs i] SetupDiEnumDeviceInterfaces_def
          records_from_def requests_from_def)
  qed
qed

lemma reset_store:
  "st\<lparr>g_deviceCount := 0, g_devices := replicate (nat MAX_DEVICES) zero_device\<rparr> =
     store_of [] (requests st)"
  by (simp add: store_of_def MAX_DEVICES_def)

lemma Enumerate_listed:
  "EnumerateUSBDevices (Some hubs) st =
     (int (min 256 (length (pass_records hubs))),
      store_of (pass_records hubs) (requests st @ pass_requests hubs))"
  by (simp add: EnumerateUSBDevices_def reset_store hub_loop_store pass_records_def
      pass_requests_def Let_def) (simp add: store_of_def)

lemma Enumerate_failed:
  "EnumerateUSBDevices None st = (- 1, store_of [] (requests st))"
  by (simp add: EnumerateUSBDevices_def reset_store)

lemma stored_store_of: "stored (store_of rs reqs) = take 256 rs"
  by (simp add: stored_def store_of_def min_def)

subsection \<open>The records of a pass and where they come from\<close>

lemma in_hub_records:
  "r \<in> set (hub_records h k) \<longleftrightarrow>
     (\<exists>path p connInfo. interface_detail h = Some path \<and> p \<in> set (hub_ports h) \<and>
        connection_info h p = Some connInfo \<and> ConnectionStatus connInfo = DeviceConnected \<and>
        r = device_record h path k p connInfo)"
proof (cases "interface_detail h")
  case None
  then show ?thesis
    by (simp add: hub_records_def)
next
  case (Some path)
  have "r \<in> set (port_records h path k p) \<longleftrightarrow>
      (\<exists>connInfo. connection_info h p = Some connInfo \<and>
         ConnectionStatus connInfo = DeviceConnected \<and> r = device_record h path k p connInfo)" for p
    by (cases "connection_info h p") (auto simp: port_records_def)
  with Some show ?thesis
    by (auto simp: hub_records_def)
qed

lemma in_records_from:
  "r \<in> set (records_from i hubs) \<longleftrightarrow>
     (\<exists>j < length hubs. r \<in> set (hub_records (hubs ! j) (i + j)))"
proof
  assume "r \<in> set (records_from i hubs)"
  then obtain k h where kh: "(k, h) \<in> set (enumerate i hubs)" and r: "r \<in> set (hub_records h k)"
    by (auto simp: records_from_def)
  from kh have "k - i < length hubs" "hubs ! (k - i) = h" "i + (k - i) = k"
    by (auto simp: in_set_enumerate_eq)
  with r show "\<exists>j < length hubs. r \<in> set (hub_records (hubs ! j) (i + j))"
    by auto
next
  assume "\<exists>j < length hubs. r \<in> set (hub_records (hubs ! j) (i + j))"
  then obtain j where j: "j < length hubs" and r: "r \<in> set (hub_records (hubs ! j) (i + j))"
    by auto
  from j have "(i + j, hubs ! j) \<in> set (enumerate i hubs)"
    by (simp add: in_set_enumerate_eq)
  with r show "r \<in> set (records_from i hubs)"
    unfolding records_from_def by force
qed

lemma in_pass_records:
  "r \<in> set (pass_records hubs) \<longleftrightarrow>
     (\<exists>k path p connInfo. k < length hubs \<and> interface_detail (hubs ! k) = Some path \<and>
        p \<in> set (hub_ports (hubs ! k)) \<and> connection_info (hubs ! k) p = Some connInfo \<and>
        ConnectionStatus connInfo = DeviceConnected \<and>
        r = device_record (hubs ! k) path k p connInfo)"
proof -
  have "r \<in> set (pass_records hubs) \<longleftrightarrow> (\<exists>k < length hubs. r \<in> set (hub_records (hubs ! k) k))"
    by (simp add: pass_records_def in_records_from)
  then show ?thesis
    by (simp only: in_hub_records) blast
qed

lemma in_hub_ports:
  "p \<in> set (hub_ports h) \<longleftrightarrow>
     (\<exists>path n. interface_detail h = Some path \<and> handle_valid h \<and> bNumberOfPorts h = Some n \<and>
        1 \<le> p \<and> p \<le> uint n)"
proof (cases "interface_detail h \<noteq> None \<and> handle_valid h \<and> bNumberOfPorts h \<noteq> None")
  case True
  then obtain path n where "interface_detail h = Some path" "handle_valid h" "bNumberOfPorts h = Some n"
    by auto
  moreover from this have "hub_ports h = [1..uint n]"
    by (simp add: hub_ports_def)
  ultimately show ?thesis
    by simp
next
  case False
  then have "hub_ports h = []"
    by (auto simp: hub_ports_def split: option.splits)
  with False show ?thesis
    by auto
qed

lemma DWORD_to_int_small: "k < 2 ^ 31 \<Longrightarrow> DWORD_to_int k = int k"
  unfolding DWORD_to_int_def
  by (simp add: signed_of_nat signed_take_bit_int_eq_self)

lemma pass_records_index:
  "nat index < length (pass_records hubs) \<Longrightarrow> nat index < 256 \<Longrightarrow>
   g_devices (store_of (pass_records hubs) reqs) ! nat index = pass_records hubs ! nat index"
  by (simp add: store_of_def nth_append)

lemma hub_record_keys:
  "map (\<lambda>r. (hubIndex r, portNumber r)) (hub_records h k) =
     map (\<lambda>p. (DWORD_to_int k, p)) (filter (port_connected h) (hub_ports h))"
proof (cases "interface_detail h")
  case None
  then have "hub_ports h = []"
    by (simp add: hub_ports_def)
  with None show ?thesis
    by (simp add: hub_records_def)
next
  case (Some path)
  have "map (\<lambda>r. (hubIndex r, portNumber r)) (concat (map (port_records h path k) ps)) =
      map (\<lambda>p. (DWORD_to_int k, p)) (filter (port_connected h) ps)" for ps
    by (induction ps)
      (auto simp: port_records_def port_connected_def device_record_def split: option.splits)
  with Some show ?thesis
    by (simp add: hub_records_def)
qed

lemma pass_record_keys:
  "map (\<lambda>r. (hubIndex r, portNumber r)) (pass_records hubs) =
     map (\<lambda>(k, p). (DWORD_to_int k, p)) (connected_ports hubs)"
proof -
  have "map (\<lambda>r. (hubIndex r, portNumber r)) (concat (map (\<lambda>(k, h). hub_records h k) xs)) =
      map (\<lambda>(k, p). (DWORD_to_int k, p))
        (concat (map (\<lambda>(k, h). map (Pair k) (filter (port_connected h) (hub_ports h))) xs))"
    for xs :: "(nat \<times> hub_interface) list"
    by (induction xs) (auto simp: hub_record_keys)
  then show ?thesis
    by (simp add: pass_records_def records_from_def connected_ports_def)
qed

lemma length_pass_records: "length (pass_records hubs) = length (connected_ports hubs)"
  using arg_cong [OF pass_record_keys, of length] by simp

lemma in_connected_ports:
  "(k, p) \<in> set (connected_ports hubs) \<longleftrightarrow>
     k < length hubs \<and> p \<in> set (hub_ports (hubs ! k)) \<and> port_connected (hubs ! k) p"
proof -
  have one: "(k, p) \<in> set (map (Pair j) (filter (port_connected h) (hub_ports h))) \<longleftrightarrow>
      j = k \<and> p \<in> set (hub_ports h) \<and> port_connected h p" for j h
    by auto
  have "(k, p) \<in> set (connected_ports hubs) \<longleftrightarrow>
      (\<exists>x \<in> set (enumerate 0 hubs).
         (k, p) \<in> set (map (Pair (fst x)) (filter (port_connected (snd x)) (hub_ports (snd x)))))"
    by (simp add: connected_ports_def case_prod_beta)
  also have "\<dots> \<longleftrightarrow>
      (\<exists>x \<in> set (enumerate 0 hubs). fst x = k \<and> p \<in> set (hub_ports (snd x)) \<and>
         port_connected (snd x) p)"
    by (simp only: one)
  also have "\<dots> \<longleftrightarrow>
      k < length hubs \<and> p \<in> set (hub_ports (hubs ! k)) \<and> port_connected (hubs ! k) p"
  proof
    assume "\<exists>x \<in> set (enumerate 0 hubs). fst x = k \<and> p \<in> set (hub_ports (snd x)) \<and>
         port_connected (snd x) p"
    then show "k < length hubs \<and> p \<in> set (hub_ports (hubs ! k)) \<and> port_connected (hubs ! k) p"
      by (auto simp: in_set_enumerate_eq)
  next
    assume a: "k < length hubs \<and> p \<in> set (hub_ports (hubs ! k)) \<and> port_connected (hubs ! k) p"
    then have "(k, hubs ! k) \<in> set (enumerate 0 hubs)"
      by (simp add: in_set_enumerate_eq)
    with a show "\<exists>x \<in> set (enumerate 0 hubs). fst x = k \<and> p \<in> set (hub_ports (snd x)) \<and>
         port_connected (snd x) p"
      by force
  qed
  finally show ?thesis .
qed

lemma in_pass_requests:
  "(k, IOCTL_USB_GET_NODE_CONNECTION_INFORMATION_EX p) \<in> set (pass_requests hubs) \<longleftrightarrow>
     k < length hubs \<and> p \<in> set (hub_ports (hubs ! k))"
proof -
  have "(k, IOCTL_USB_GET_NODE_CONNECTION_INFORMATION_EX p) \<in> set (hub_requests h j) \<longleftrightarrow>
      j = k \<and> p \<in> set (hub_ports h)" for h j
  proof (cases "interface_detail h \<noteq> None \<and> handle_valid h")
    case True
    then show ?thesis
      by (auto simp: hub_requests_def)
  next
    case False
    then have "hub_requests h j = []" "hub_ports h = []"
      by (auto simp: hub_requests_def hub_ports_def split: option.splits)
    then show ?thesis
      by simp
  qed
  note one = this
  have "(k, IOCTL_USB_GET_NODE_CONNECTION_INFORMATION_EX p) \<in> set (pass_requests hubs) \<longleftrightarrow>
      (\<exists>x \<in> set (enumerate 0 hubs).
         (k, IOCTL_USB_GET_NODE_CONNECTION_INFORMATION_EX p) \<in> set (hub_requests (snd x) (fst x)))"
    by (simp add: pass_requests_def requests_from_def case_prod_beta)
  also have "\<dots> \<longleftrightarrow> (\<exists>x \<in> set (enumerate 0 hubs). fst x = k \<and> p \<in> set (hub_ports (snd x)))"
    by (simp only: one)
  also have "\<dots> \<longleftrightarrow> k < length hubs \<and> p \<in> set (hub_ports (hubs ! k))"
  proof
    assume "\<exists>x \<in> set (enumerate 0 hubs). fst x = k \<and> p \<in> set (hub_ports (snd x))"
    then show "k < length hubs \<and> p \<in> set (hub_ports (hubs ! k))"
      by (auto simp: in_set_enumerate_eq)
  next
    assume a: "k < length hubs \<and> p \<in> set (hub_ports (hubs ! k))"
    then have "(k, hubs ! k) \<in> set (enumerate 0 hubs)"
      by (simp add: in_set_enumerate_eq)
    with a show "\<exists>x \<in> set (enumerate 0 hubs). fst x = k \<and> p \<in> set (hub_ports (snd x))"
      by force
  qed
  finally show ?thesis .
qed

lemma stored_pass:
  "stored (snd (EnumerateUSBDevices (Some hubs) st)) = take 256 (pass_records hubs)"
  by (simp add: Enumerate_listed stored_store_of)

lemma stored_in_pass:
  "r \<in> set (stored (snd (EnumerateUSBDevices (Some hubs) st))) \<Longrightarrow> r \<in> set (pass_records hubs)"
  by (auto simp: stored_pass dest: in_set_takeD)

lemma record_origin:
  assumes "r \<in> set (pass_records hubs)"
  obtains k path n connInfo where "k < length hubs"
    and "interface_detail (hubs ! k) = Some path" and "handle_valid (hubs ! k)"
    and "bNumberOfPorts (hubs ! k) = Some n"
    and "1 \<le> portNumber r" and "portNumber r \<le> uint n"
    and "connection_info (hubs ! k) (portNumber r) = Some connInfo"
    and "ConnectionStatus connInfo = DeviceConnected"
    and "r = device_record (hubs ! k) path k (portNumber r) connInfo"
proof -
  from assms obtain k path p connInfo where k: "k < length hubs"
    and path: "interface_detail (hubs ! k) = Some path"
    and p: "p \<in> set (hub_ports (hubs ! k))"
    and c: "connection_info (hubs ! k) p = Some connInfo" "ConnectionStatus connInfo = DeviceConnected"
    and r: "r = device_record (hubs ! k) path k p connInfo"
    unfolding in_pass_records by blast
  from r have pr: "portNumber r = p"
    by (simp add: device_record_def)
  from p path obtain n where "handle_valid (hubs ! k)" "bNumberOfPorts (hubs ! k) = Some n"
    "1 \<le> p" "p \<le> uint n"
    unfolding in_hub_ports by auto
  with k path c r pr show thesis
    by (intro that [of k path n connInfo]) simp_all
qed

lemma hub_loop_foldl:
  "hub_loop hubs i st = foldl (\<lambda>s (k, h). hub_body h k s) st (enumerate i (drop i hubs))"
proof (induction hubs i st rule: hub_loop.induct)
  case (1 hubs i st)
  show ?case
  proof (cases "i < length hubs")
    case True
    then have d: "drop i hubs = hubs ! i # drop (Suc i) hubs"
      by (simp add: Cons_nth_drop_Suc)
    from True have e: "SetupDiEnumDeviceInterfaces hubs i = Some (hubs ! i)"
      by (simp add: SetupDiEnumDeviceInterfaces_def)
    from "1" [OF e] e show ?thesis
      by (simp add: hub_loop.simps [of hubs i] d)
  next
    case False
    then show ?thesis
      by (simp add: hub_loop.simps [of hubs i] SetupDiEnumDeviceInterfaces_def)
  qed
qed

lemma hub_failed_body:
  assumes "hub_failed h"
  shows "g_devices (hub_body h k s) = g_devices s \<and> g_deviceCount (hub_body h k s) = g_deviceCount s"
proof (cases "interface_detail h")
  case None
  then show ?thesis
    by (simp add: hub_body_def)
next
  case (Some path)
  with assms have "\<not> handle_valid h \<or> bNumberOfPorts h = None"
    by (simp add: hub_failed_def)
  with Some show ?thesis
    by (auto simp: hub_body_def OpenDeviceHandle_def GetHubNodeInfo_def)
qed

lemma record_fields:
  "hubIndex (device_record h path k p connInfo) = DWORD_to_int k"
  "portNumber (device_record h path k p connInfo) = p"
  "devicePath (device_record h path k p connInfo) = strncpy_path path"
  "deviceDesc (device_record h path k p connInfo) = snprintf_desc (snd (GetDeviceProperty h p [])) p"
  "speed (device_record h path k p connInfo) = map_speed (Speed connInfo)"
  by (simp_all add: device_record_def)

lemma stored_origin:
  assumes "length hubs \<le> 2 ^ 31"
    and "r \<in> set (stored (snd (EnumerateUSBDevices (Some hubs) st)))"
  shows "\<exists>k path. k < length hubs \<and> hubIndex r = int k \<and> \<not> hub_failed (hubs ! k) \<and>
         interface_detail (hubs ! k) = Some path \<and> devicePath r = strncpy_path path \<and>
         portNumber r \<in> set (hub_ports (hubs ! k)) \<and> port_connected (hubs ! k) (portNumber r)"
proof -
  from assms(2) have "r \<in> set (pass_records hubs)"
    by (rule stored_in_pass)
  then obtain k path n connInfo where k: "k < length hubs"
    and path: "interface_detail (hubs ! k) = Some path" and v: "handle_valid (hubs ! k)"
    and n: "bNumberOfPorts (hubs ! k) = Some n" "1 \<le> portNumber r" "portNumber r \<le> uint n"
    and c: "connection_info (hubs ! k) (portNumber r) = Some connInfo"
      "ConnectionStatus connInfo = DeviceConnected"
    and r: "r = device_record (hubs ! k) path k (portNumber r) connInfo"
    by (rule record_origin)
  from k assms(1) have "DWORD_to_int k = int k"
    by (intro DWORD_to_int_small) simp
  with arg_cong [OF r, of hubIndex] have 1: "hubIndex r = int k"
    by (simp only: record_fields)
  from arg_cong [OF r, of devicePath] have 2: "devicePath r = strncpy_path path"
    by (simp only: record_fields)
  from path v n have 3: "portNumber r \<in> set (hub_ports (hubs ! k))"
    unfolding in_hub_ports by blast
  from c have 4: "port_connected (hubs ! k) (portNumber r)"
    by (simp add: port_connected_def)
  from path v n have 5: "\<not> hub_failed (hubs ! k)"
    by (simp add: hub_failed_def)
  from k path 1 2 3 4 5 show ?thesis
    by blast
qed

lemma stored_present:
  assumes "length (connected_ports hubs) \<le> 256"
    and "k < length hubs" and "p \<in> set (hub_ports (hubs ! k))" and "port_connected (hubs ! k) p"
  shows "\<exists>r \<in> set (stored (snd (EnumerateUSBDevices (Some hubs) st))).
           hubIndex r = DWORD_to_int k \<and> portNumber r = p \<and>
           deviceDesc r = snprintf_desc (snd (GetDeviceProperty (hubs ! k) p [])) p"
proof -
  from assms(4) obtain connInfo where c: "connection_info (hubs ! k) p = Some connInfo"
    "ConnectionStatus connInfo = DeviceConnected"
    by (cases "connection_info (hubs ! k) p") (simp_all add: port_connected_def)
  from assms(3) obtain path where path: "interface_detail (hubs ! k) = Some path"
    unfolding in_hub_ports by blast
  let ?r = "device_record (hubs ! k) path k p connInfo"
  from assms(2,3) c path have "?r \<in> set (pass_records hubs)"
    unfolding in_pass_records by blast
  moreover from assms(1) have "stored (snd (EnumerateUSBDevices (Some hubs) st)) = pass_records hubs"
    by (simp add: stored_pass length_pass_records)
  ultimately have "?r \<in> set (stored (snd (EnumerateUSBDevices (Some hubs) st)))"
    by simp
  then show ?thesis
    by (rule rev_bexI) (simp add: record_fields)
qed

subsection \<open>Changing the answers of one hub\<close>

lemma stored_record_present:
  assumes "length (connected_ports hubs) \<le> 256"
    and "k < length hubs" and "p \<in> set (hub_ports (hubs ! k))"
    and "connection_info (hubs ! k) p = Some connInfo"
    and "ConnectionStatus connInfo = DeviceConnected"
  shows "\<exists>path. interface_detail (hubs ! k) = Some path \<and>
           device_record (hubs ! k) path k p connInfo
             \<in> set (stored (snd (EnumerateUSBDevices (Some hubs) st)))"
proof -
  from assms(3) obtain path where path: "interface_detail (hubs ! k) = Some path"
    unfolding in_hub_ports by blast
  with assms(2-5) have "device_record (hubs ! k) path k p connInfo \<in> set (pass_records hubs)"
    unfolding in_pass_records by blast
  moreover from assms(1) have "stored (snd (EnumerateUSBDevices (Some hubs) st)) = pass_records hubs"
    by (simp add: stored_pass length_pass_records)
  ultimately show ?thesis
    using path by simp
qed

lemma port_body_speed:
  assumes "connection_info h p = Some connInfo" and "ConnectionStatus connInfo = DeviceConnected"
    and "0 \<le> g_deviceCount s" "g_deviceCount s < MAX_DEVICES" "length (g_devices s) = nat MAX_DEVICES"
  shows "g_deviceCount (port_body h path k p s) = g_deviceCount s + 1 \<and>
    speed (g_devices (port_body h path k p s) ! nat (g_deviceCount s)) = map_speed (Speed connInfo)"
  using assms
  by (simp add: port_body_def GetPortConnectorProperties_def store_device_def Let_def
      MAX_DEVICES_def)

lemma records_from_nth:
  "records_from i hubs = concat (map (\<lambda>j. hub_records (hubs ! j) (i + j)) [0..<length hubs])"
proof -
  have "map (\<lambda>(k, h). hub_records h k) (enumerate i hubs) =
      map (\<lambda>j. hub_records (hubs ! j) (i + j)) [0..<length hubs]"
    by (rule nth_equalityI) (simp_all add: nth_enumerate_eq)
  then show ?thesis
    by (simp add: records_from_def)
qed

lemma requests_from_nth:
  "requests_from i hubs = concat (map (\<lambda>j. hub_requests (hubs ! j) (i + j)) [0..<length hubs])"
proof -
  have "map (\<lambda>(k, h). hub_requests h k) (enumerate i hubs) =
      map (\<lambda>j. hub_requests (hubs ! j) (i + j)) [0..<length hubs]"
    by (rule nth_equalityI) (simp_all add: nth_enumerate_eq)
  then show ?thesis
    by (simp add: requests_from_def)
qed

lemma pass_records_cong:
  assumes "length hubs' = length hubs"
    and "\<And>j. j < length hubs \<Longrightarrow> map f (hub_records (hubs' ! j) j) = map f (hub_records (hubs ! j) j)"
  shows "map f (pass_records hubs') = map f (pass_records hubs)"
proof -
  have "map (\<lambda>j. map f (hub_records (hubs' ! j) j)) [0..<length hubs] =
      map (\<lambda>j. map f (hub_records (hubs ! j) j)) [0..<length hubs]"
    using assms(2) by simp
  then have "concat (map (\<lambda>j. map f (hub_records (hubs' ! j) j)) [0..<length hubs]) =
      concat (map (\<lambda>j. map f (hub_records (hubs ! j) j)) [0..<length hubs])"
    by (rule arg_cong)
  moreover have "map f (pass_records xs) =
      concat (map (\<lambda>j. map f (hub_records (xs ! j) j)) [0..<length xs])" for xs
    by (simp add: pass_records_def records_from_nth map_concat o_def)
  ultimately show ?thesis
    by (simp only: assms(1))
qed

lemma pass_requests_cong:
  assumes "length hubs' = length hubs"
    and "\<And>j. j < length hubs \<Longrightarrow> hub_requests (hubs' ! j) j = hub_requests (hubs ! j) j"
  shows "pass_requests hubs' = pass_requests hubs"
proof -
  have "map (\<lambda>j. hub_requests (hubs' ! j) j) [0..<length hubs] =
      map (\<lambda>j. hub_requests (hubs ! j) j) [0..<length hubs]"
    using assms(2) by simp
  then have "concat (map (\<lambda>j. hub_requests (hubs' ! j) j) [0..<length hubs]) =
      concat (map (\<lambda>j. hub_requests (hubs ! j) j) [0..<length hubs])"
    by (rule arg_cong)
  moreover have "pass_requests xs =
      concat (map (\<lambda>j. hub_requests (xs ! j) j) [0..<length xs])" for xs
    by (simp add: pass_requests_def requests_from_nth)
  ultimately show ?thesis
    by (simp only: assms(1))
qed

lemma with_port_answer_fields:
  "interface_detail (with_port_answer h p x y) = interface_detail h"
  "handle_valid (with_port_answer h p x y) = handle_valid h"
  "bNumberOfPorts (with_port_answer h p x y) = bNumberOfPorts h"
  "connection_info (with_port_answer h p x y) q = (if q = p then x else connection_info h q)"
  "device_desc (with_port_answer h p x y) q = (if q = p then y else device_desc h q)"
  by (simp_all add: with_port_answer_def)

lemma with_port_answer_ports:
  "hub_ports (with_port_answer h p x y) = hub_ports h"
  "hub_requests (with_port_answer h p x y) k = hub_requests h k"
proof -
  show p: "hub_ports (with_port_answer h p x y) = hub_ports h"
    by (simp add: hub_ports_def with_port_answer_fields cong: option.case_cong if_cong)
  show "hub_requests (with_port_answer h p x y) k = hub_requests h k"
    by (simp add: hub_requests_def p with_port_answer_fields cong: option.case_cong)
qed

lemma device_record_other:
  "q \<noteq> p \<Longrightarrow> device_record (with_port_answer h p x y) path k q connInfo =
     device_record h path k q connInfo"
  by (simp add: device_record_def GetDeviceProperty_def with_port_answer_fields)

lemma port_records_skipped:
  assumes "\<not> port_connected h p"
    and "\<forall>connInfo. x = Some connInfo \<longrightarrow> ConnectionStatus connInfo \<noteq> DeviceConnected"
  shows "port_records (with_port_answer h p x y) path k q = port_records h path k q"
proof (cases "q = p")
  case True
  from assms(1) have "port_records h path k p = []"
    by (cases "connection_info h p") (simp_all add: port_records_def port_connected_def)
  moreover from assms(2) have "port_records (with_port_answer h p x y) path k p = []"
    by (cases x) (simp_all add: port_records_def with_port_answer_fields)
  ultimately show ?thesis
    using True by simp
next
  case False
  then show ?thesis
    by (simp add: port_records_def device_record_other with_port_answer_fields
        cong: option.case_cong if_cong)
qed

lemma hub_records_skipped:
  assumes "\<not> port_connected h p"
    and "\<forall>connInfo. x = Some connInfo \<longrightarrow> ConnectionStatus connInfo \<noteq> DeviceConnected"
  shows "hub_records (with_port_answer h p x y) k = hub_records h k"
proof -
  have "port_records (with_port_answer h p x y) path k = port_records h path k" for path
    using port_records_skipped [OF assms] by (intro ext)
  then show ?thesis
    by (simp add: hub_records_def with_port_answer_fields with_port_answer_ports
        cong: option.case_cong)
qed

lemma port_body_skipped:
  assumes "\<not> port_connected h p"
  shows "g_devices (port_body h path k p s) = g_devices s \<and>
    g_deviceCount (port_body h path k p s) = g_deviceCount s"
  using assms
  by (cases "connection_info h p")
    (simp_all add: port_body_def GetPortConnectorProperties_def port_connected_def)

lemma pass_skipped:
  assumes "k < length hubs" and "\<not> port_connected (hubs ! k) p"
    and "\<forall>connInfo. x = Some connInfo \<longrightarrow> ConnectionStatus connInfo \<noteq> DeviceConnected"
  shows "pass_records (hubs[k := with_port_answer (hubs ! k) p x y]) = pass_records hubs"
    and "pass_requests (hubs[k := with_port_answer (hubs ! k) p x y]) = pass_requests hubs"
proof -
  let ?hubs = "hubs[k := with_port_answer (hubs ! k) p x y]"
  have "hub_records (?hubs ! j) j = hub_records (hubs ! j) j" if "j < length hubs" for j
    using that hub_records_skipped [OF assms(2,3)] by (cases "j = k") simp_all
  then have "map (\<lambda>r. r) (pass_records ?hubs) = map (\<lambda>r. r) (pass_records hubs)"
    by (intro pass_records_cong) simp_all
  then show "pass_records ?hubs = pass_records hubs"
    by simp
  have "hub_requests (?hubs ! j) j = hub_requests (hubs ! j) j" if "j < length hubs" for j
    using that by (cases "j = k") (simp_all add: with_port_answer_ports)
  then show "pass_requests ?hubs = pass_requests hubs"
    by (intro pass_requests_cong) simp_all
qed

subsection \<open>Descriptions\<close>

lemma length_decimal: "n < 1000 \<Longrightarrow> length (decimal n) \<le> 3"
  by (simp add: decimal.simps [of n] decimal.simps [of "n div 10"]
      decimal.simps [of "n div 10 div 10"])

lemma port_number_small:
  assumes "p \<in> set (hub_ports h)"
  shows "1 \<le> p \<and> p < 256"
proof -
  from assms obtain n :: "8 word" where "1 \<le> p" "p \<le> uint n"
    unfolding in_hub_ports by blast
  moreover have "uint n < 2 ^ LENGTH(8)"
    by (rule uint_lt2p)
  ultimately show ?thesis
    by simp
qed

lemma empty_description:
  assumes "p \<in> set (hub_ports h)"
  shows "snprintf_desc [] p = ''Hub: , Port: '' @ format_d p"
proof -
  from port_number_small [OF assms] have "nat p < 1000" "\<not> p < 0"
    by linarith+
  then have "length (format_d p) \<le> 3"
    by (simp add: format_d_def length_decimal)
  then show ?thesis
    by (simp add: snprintf_desc_def MAX_DESC_LEN_def)
qed

lemma port_body_connected:
  assumes "port_connected h p"
    and "0 \<le> g_deviceCount s" "g_deviceCount s < MAX_DEVICES" "length (g_devices s) = nat MAX_DEVICES"
  shows "g_deviceCount (port_body h path k p s) = g_deviceCount s + 1 \<and>
    deviceDesc (g_devices (port_body h path k p s) ! nat (g_deviceCount s)) =
      snprintf_desc (snd (GetDeviceProperty h p [])) p"
proof -
  from assms(1) obtain connInfo where "connection_info h p = Some connInfo"
    "ConnectionStatus connInfo = DeviceConnected"
    by (cases "connection_info h p") (simp_all add: port_connected_def)
  with assms(2-) show ?thesis
    by (simp add: port_body_def GetPortConnectorProperties_def store_device_def Let_def
        MAX_DEVICES_def)
qed

lemma hub_records_description:
  "map (\<lambda>r. r\<lparr>deviceDesc := []\<rparr>) (hub_records (h\<lparr>device_desc := d\<rparr>) k) =
     map (\<lambda>r. r\<lparr>deviceDesc := []\<rparr>) (hub_records h k)"
proof -
  have ports: "hub_ports (h\<lparr>device_desc := d\<rparr>) = hub_ports h"
    by (simp add: hub_ports_def cong: option.case_cong if_cong)
  have "map (\<lambda>r. r\<lparr>deviceDesc := []\<rparr>) (port_records (h\<lparr>device_desc := d\<rparr>) path k q) =
      map (\<lambda>r. r\<lparr>deviceDesc := []\<rparr>) (port_records h path k q)" for path q
    by (cases "connection_info h q") (simp_all add: port_records_def device_record_def)
  then have "map (\<lambda>r. r\<lparr>deviceDesc := []\<rparr>)
        (concat (map (port_records (h\<lparr>device_desc := d\<rparr>) path k) ps)) =
      map (\<lambda>r. r\<lparr>deviceDesc := []\<rparr>) (concat (map (port_records h path k) ps))" for path ps
    by (induction ps) simp_all
  with ports show ?thesis
    by (cases "interface_detail h") (simp_all add: hub_records_def)
qed

lemma pass_records_description:
  assumes "k < length hubs"
  shows "map (\<lambda>r. r\<lparr>deviceDesc := []\<rparr>) (pass_records (hubs[k := (hubs ! k)\<lparr>device_desc := d\<rparr>])) =
     map (\<lambda>r. r\<lparr>deviceDesc := []\<rparr>) (pass_records hubs)"
proof (rule pass_records_cong)
  show "length (hubs[k := (hubs ! k)\<lparr>device_desc := d\<rparr>]) = length hubs"
    by simp
  show "map (\<lambda>r. r\<lparr>deviceDesc := []\<rparr>)
        (hub_records (hubs[k := (hubs ! k)\<lparr>device_desc := d\<rparr>] ! j) j) =
      map (\<lambda>r. r\<lparr>deviceDesc := []\<rparr>) (hub_records (hubs ! j) j)" if "j < length hubs" for j
    using that by (cases "j = k") (simp_all add: hub_records_description)
qed

section \<open>The claims of the specification\<close>

subsection \<open>C1: port numbers, hub indices and connection status of the records\<close>

text \<open>
  Claim C1. Every record that a pass keeps belongs to a listed hub and a port of it: its
  \<open>hubIndex\<close> is the listing position of the hub, between 0 and the number of listed hubs
  minus 1, its \<open>portNumber\<close> lies between 1 and the port count that the hub's
  node-information request returned, and the connection request for that port succeeded
  with status \<open>DeviceConnected\<close>. No record carries the hub index and port number of a port
  whose request failed or returned another status. (The listing has at most \<open>2 ^ 31\<close>
  members, so that the hub counter fits the \<open>int\<close> field.)
\<close>

theorem emitted_records_in_range:
  assumes "length hubs \<le> 2 ^ 31"
    and "r \<in> set (stored (snd (EnumerateUSBDevices (Some hubs) st)))"
  shows "(\<exists>k n connInfo. k < length hubs \<and> hubIndex r = int k \<and>
            bNumberOfPorts (hubs ! k) = Some n \<and> 1 \<le> portNumber r \<and> portNumber r \<le> uint n \<and>
            connection_info (hubs ! k) (portNumber r) = Some connInfo \<and>
            ConnectionStatus connInfo = DeviceConnected) \<and>
         0 \<le> hubIndex r \<and> hubIndex r \<le> int (length hubs) - 1 \<and>
         (\<forall>k p. k < length hubs \<and> \<not> port_connected (hubs ! k) p \<longrightarrow>
            \<not> (hubIndex r = int k \<and> portNumber r = p))"
proof -
  from assms(2) have "r \<in> set (pass_records hubs)"
    by (rule stored_in_pass)
  then obtain k path n connInfo where k: "k < length hubs"
    and n: "bNumberOfPorts (hubs ! k) = Some n" "1 \<le> portNumber r" "portNumber r \<le> uint n"
    and c: "connection_info (hubs ! k) (portNumber r) = Some connInfo"
      "ConnectionStatus connInfo = DeviceConnected"
    and r: "r = device_record (hubs ! k) path k (portNumber r) connInfo"
    by (rule record_origin)
  from k assms(1) have "DWORD_to_int k = int k"
    by (intro DWORD_to_int_small) simp
  with arg_cong [OF r, of hubIndex] have h: "hubIndex r = int k"
    by (simp only: record_fields)
  from c have "port_connected (hubs ! k) (portNumber r)"
    by (simp add: port_connected_def)
  with h have "\<forall>j p. j < length hubs \<and> \<not> port_connected (hubs ! j) p \<longrightarrow>
      \<not> (hubIndex r = int j \<and> portNumber r = p)"
    by auto
  moreover from h k have "0 \<le> hubIndex r \<and> hubIndex r \<le> int (length hubs) - 1"
    by simp
  ultimately show ?thesis
    using k n c h by blast
qed

theorem emitted_records_in_range_witness:
  "length [scenario_B_hub] \<le> 2 ^ 31 \<and>
   g_devices after_scenario_B ! 1 \<in> set (stored (snd (EnumerateUSBDevices (Some [scenario_B_hub]) initial_state))) \<and>
   hubIndex (g_devices after_scenario_B ! 1) = 0 \<and>
   portNumber (g_devices after_scenario_B ! 1) = 3 \<and>
   bNumberOfPorts scenario_B_hub = Some 4"
proof -
  have h1: "length [scenario_B_hub] \<le> 2 ^ 31"
    by simp
  have h2: "g_devices after_scenario_B ! 1 \<in>
      set (stored (snd (EnumerateUSBDevices (Some [scenario_B_hub]) initial_state)))"
    by code_simp
  from emitted_records_in_range [OF h1 h2] h1 h2 show ?thesis
    by (simp add: pass_eval)
qed

subsection \<open>C2: the return value, the count and the capacity\<close>

text \<open>
  Claim C2. After a pass, the return value of \<open>EnumerateUSBDevices\<close> equals
  \<open>GetDeviceCount\<close>, which equals the number of records in the store, which equals the
  number of connected ports of the listing capped at \<open>MAX_DEVICES\<close>. The records kept are
  those of the first \<open>MAX_DEVICES\<close> connected ports in traversal order; and whatever the
  count, the connection request is sent to every port of every hub that could be opened
  and queried.
\<close>

theorem count_consistent:
  "fst (EnumerateUSBDevices (Some hubs) st) =
     GetDeviceCount (snd (EnumerateUSBDevices (Some hubs) st)) \<and>
   GetDeviceCount (snd (EnumerateUSBDevices (Some hubs) st)) =
     int (length (stored (snd (EnumerateUSBDevices (Some hubs) st)))) \<and>
   GetDeviceCount (snd (EnumerateUSBDevices (Some hubs) st)) =
     min MAX_DEVICES (int (length (connected_ports hubs))) \<and>
   map (\<lambda>r. (hubIndex r, portNumber r)) (stored (snd (EnumerateUSBDevices (Some hubs) st))) =
     map (\<lambda>(k, p). (DWORD_to_int k, p)) (take (nat MAX_DEVICES) (connected_ports hubs)) \<and>
   (\<forall>k p. k < length hubs \<and> p \<in> set (hub_ports (hubs ! k)) \<longrightarrow>
      (k, IOCTL_USB_GET_NODE_CONNECTION_INFORMATION_EX p)
        \<in> set (requests (snd (EnumerateUSBDevices (Some hubs) st))))"
proof -
  let ?st = "snd (EnumerateUSBDevices (Some hubs) st)"
  have ret: "fst (EnumerateUSBDevices (Some hubs) st) = GetDeviceCount ?st"
    by (simp add: Enumerate_listed GetDeviceCount_def store_of_def)
  have len: "GetDeviceCount ?st = int (length (stored ?st))"
    by (simp add: stored_pass) (simp add: Enumerate_listed GetDeviceCount_def store_of_def)
  have cap: "GetDeviceCount ?st = min MAX_DEVICES (int (length (connected_ports hubs)))"
    by (simp add: Enumerate_listed GetDeviceCount_def store_of_def MAX_DEVICES_def
        length_pass_records)
  have keys: "map (\<lambda>r. (hubIndex r, portNumber r)) (stored ?st) =
      map (\<lambda>(k, p). (DWORD_to_int k, p)) (take (nat MAX_DEVICES) (connected_ports hubs))"
    using arg_cong [OF pass_record_keys, of "take 256" hubs]
    by (simp add: stored_pass take_map MAX_DEVICES_def)
  have reqs: "\<forall>k p. k < length hubs \<and> p \<in> set (hub_ports (hubs ! k)) \<longrightarrow>
      (k, IOCTL_USB_GET_NODE_CONNECTION_INFORMATION_EX p) \<in> set (requests ?st)"
    by (simp add: Enumerate_listed store_of_def in_pass_requests)
  from ret len cap keys reqs show ?thesis
    by blast
qed

theorem count_consistent_witness:
  "fst (EnumerateUSBDevices (Some scenario_D_hubs) initial_state) = 256 \<and>
   GetDeviceCount (snd (EnumerateUSBDevices (Some scenario_D_hubs) initial_state)) = 256 \<and>
   length (connected_ports scenario_D_hubs) = 400 \<and>
   (1, IOCTL_USB_GET_NODE_CONNECTION_INFORMATION_EX 200)
     \<in> set (requests (snd (EnumerateUSBDevices (Some scenario_D_hubs) initial_state)))"
proof -
  have ports: "hub_ports full_hub = [1..200]"
    by (simp add: hub_ports_def full_hub_def)
  have "filter (port_connected full_hub) [1..200] = [1..200]"
    by (simp add: port_connected_def full_hub_def device_reply_def)
  with ports have n: "length (connected_ports scenario_D_hubs) = 400"
    by (simp add: connected_ports_def scenario_D_hubs_def)
  have p: "(1::nat) < length scenario_D_hubs \<and> 200 \<in> set (hub_ports (scenario_D_hubs ! 1))"
    by (simp add: ports scenario_D_hubs_def)
  from count_consistent [of scenario_D_hubs initial_state] n p show ?thesis
    by (simp add: MAX_DEVICES_def)
qed

subsection \<open>C3: the listing failure is the only fatal condition\<close>

text \<open>
  Claim C3. \<open>EnumerateUSBDevices\<close> returns \<open>-1\<close> exactly when \<open>SetupDiGetClassDevs\<close>
  fails, and this is the only negative return value: when the listing succeeds, the return
  value lies between 0 and \<open>MAX_DEVICES\<close>, whatever fails for a hub, a port or a
  description lookup.
\<close>

theorem fatal_only_listing:
  "(fst (EnumerateUSBDevices os st) = - 1 \<longleftrightarrow> os = None) \<and>
   (fst (EnumerateUSBDevices os st) < 0 \<longleftrightarrow> os = None) \<and>
   (\<forall>hubs. os = Some hubs \<longrightarrow>
      0 \<le> fst (EnumerateUSBDevices os st) \<and> fst (EnumerateUSBDevices os st) \<le> MAX_DEVICES)"
  by (cases os) (simp_all add: Enumerate_failed Enumerate_listed MAX_DEVICES_def)

theorem fatal_only_listing_witness:
  "fst (EnumerateUSBDevices (Some unreachable_hubs) initial_state) = 2 \<and>
   fst (EnumerateUSBDevices None initial_state) = - 1"
  using fatal_only_listing [of "Some unreachable_hubs" initial_state]
    fatal_only_listing [of None initial_state]
  by (simp add: pass_eval unreachable_hubs_def)

subsection \<open>C4: the speed mapping\<close>

text \<open>
  Claim C4. The speed values Low, Full, High and Super are mapped to 0, 1, 2 and 3, every
  other value of the \<open>Speed\<close> byte to \<open>-1\<close>, which is none of 0..3. The mapping is
  applied to every record: a record kept by a pass carries the index of a listed hub and the
  number of one of its ports whose connection request returned \<open>DeviceConnected\<close>, and
  its speed is the image of the \<open>Speed\<close> byte of that very answer; the loop body of a
  connected port, when capacity remains, stores a record with the image of the port's
  \<open>Speed\<close> byte; and as long as the capacity suffices for the pass, every connected port
  has a record with the image of its \<open>Speed\<close> byte.
\<close>

theorem speed_mapping_total:
  "map_speed UsbLowSpeed = 0 \<and> map_speed UsbFullSpeed = 1 \<and>
   map_speed UsbHighSpeed = 2 \<and> map_speed UsbSuperSpeed = 3 \<and>
   (s \<notin> {UsbLowSpeed, UsbFullSpeed, UsbHighSpeed, UsbSuperSpeed} \<longrightarrow> map_speed s = - 1) \<and>
   (map_speed s \<in> {0, 1, 2, 3} \<longleftrightarrow> s \<in> {UsbLowSpeed, UsbFullSpeed, UsbHighSpeed, UsbSuperSpeed}) \<and>
   (r \<in> set (stored (snd (EnumerateUSBDevices (Some hubs) st))) \<longrightarrow>
      (\<exists>k connInfo. k < length hubs \<and> hubIndex r = DWORD_to_int k \<and>
         portNumber r \<in> set (hub_ports (hubs ! k)) \<and>
         connection_info (hubs ! k) (portNumber r) = Some connInfo \<and>
         ConnectionStatus connInfo = DeviceConnected \<and>
         speed r = map_speed (Speed connInfo))) \<and>
   (connection_info h p = Some answer \<and> ConnectionStatus answer = DeviceConnected \<and>
      0 \<le> g_deviceCount s0 \<and> g_deviceCount s0 < MAX_DEVICES \<and>
      length (g_devices s0) = nat MAX_DEVICES \<longrightarrow>
      g_deviceCount (port_body h path j p s0) = g_deviceCount s0 + 1 \<and>
      speed (g_devices (port_body h path j p s0) ! nat (g_deviceCount s0)) =
        map_speed (Speed answer)) \<and>
   (length (connected_ports hubs) \<le> 256 \<and> i < length hubs \<and> q \<in> set (hub_ports (hubs ! i)) \<and>
      connection_info (hubs ! i) q = Some found \<and> ConnectionStatus found = DeviceConnected \<longrightarrow>
      (\<exists>r' \<in> set (stored (snd (EnumerateUSBDevices (Some hubs) st))).
         hubIndex r' = DWORD_to_int i \<and> portNumber r' = q \<and> speed r' = map_speed (Speed found)))"
proof -
  let ?S = "set (stored (snd (EnumerateUSBDevices (Some hubs) st)))"
  have table: "map_speed UsbLowSpeed = 0 \<and> map_speed UsbFullSpeed = 1 \<and>
      map_speed UsbHighSpeed = 2 \<and> map_speed UsbSuperSpeed = 3"
    by (simp add: map_speed_def UsbLowSpeed_def UsbFullSpeed_def UsbHighSpeed_def
        UsbSuperSpeed_def)
  have other: "s \<notin> {UsbLowSpeed, UsbFullSpeed, UsbHighSpeed, UsbSuperSpeed} \<longrightarrow> map_speed s = - 1"
    by (simp add: map_speed_def)
  have valid: "map_speed s \<in> {0, 1, 2, 3} \<longleftrightarrow>
      s \<in> {UsbLowSpeed, UsbFullSpeed, UsbHighSpeed, UsbSuperSpeed}"
    by (simp add: map_speed_def)
  have emitted: "r \<in> ?S \<longrightarrow>
      (\<exists>k connInfo. k < length hubs \<and> hubIndex r = DWORD_to_int k \<and>
         portNumber r \<in> set (hub_ports (hubs ! k)) \<and>
         connection_info (hubs ! k) (portNumber r) = Some connInfo \<and>
         ConnectionStatus connInfo = DeviceConnected \<and>
         speed r = map_speed (Speed connInfo))"
  proof
    assume "r \<in> ?S"
    then have "r \<in> set (pass_records hubs)"
      by (rule stored_in_pass)
    then obtain k path n connInfo where k: "k < length hubs"
      and path: "interface_detail (hubs ! k) = Some path" and v: "handle_valid (hubs ! k)"
      and n: "bNumberOfPorts (hubs ! k) = Some n" "1 \<le> portNumber r" "portNumber r \<le> uint n"
      and c: "connection_info (hubs ! k) (portNumber r) = Some connInfo"
        "ConnectionStatus connInfo = DeviceConnected"
      and r: "r = device_record (hubs ! k) path k (portNumber r) connInfo"
      by (rule record_origin)
    from arg_cong [OF r, of hubIndex] have 1: "hubIndex r = DWORD_to_int k"
      by (simp only: record_fields)
    from arg_cong [OF r, of speed] have 2: "speed r = map_speed (Speed connInfo)"
      by (simp only: record_fields)
    from path v n have 3: "portNumber r \<in> set (hub_ports (hubs ! k))"
      unfolding in_hub_ports by blast
    from k c 1 2 3 show "\<exists>k connInfo. k < length hubs \<and> hubIndex r = DWORD_to_int k \<and>
         portNumber r \<in> set (hub_ports (hubs ! k)) \<and>
         connection_info (hubs ! k) (portNumber r) = Some connInfo \<and>
         ConnectionStatus connInfo = DeviceConnected \<and>
         speed r = map_speed (Speed connInfo)"
      by blast
  qed
  have body: "connection_info h p = Some answer \<and> ConnectionStatus answer = DeviceConnected \<and>
      0 \<le> g_deviceCount s0 \<and> g_deviceCount s0 < MAX_DEVICES \<and>
      length (g_devices s0) = nat MAX_DEVICES \<longrightarrow>
      g_deviceCount (port_body h path j p s0) = g_deviceCount s0 + 1 \<and>
      speed (g_devices (port_body h path j p s0) ! nat (g_deviceCount s0)) =
        map_speed (Speed answer)"
    using port_body_speed [of h p answer s0 path j] by blast
  have present: "length (connected_ports hubs) \<le> 256 \<and> i < length hubs \<and>
      q \<in> set (hub_ports (hubs ! i)) \<and>
      connection_info (hubs ! i) q = Some found \<and> ConnectionStatus found = DeviceConnected \<longrightarrow>
      (\<exists>r' \<in> ?S. hubIndex r' = DWORD_to_int i \<and> portNumber r' = q \<and>
         speed r' = map_speed (Speed found))"
  proof (intro impI, elim conjE)
    assume "length (connected_ports hubs) \<le> 256" "i < length hubs"
      "q \<in> set (hub_ports (hubs ! i))" "connection_info (hubs ! i) q = Some found"
      "ConnectionStatus found = DeviceConnected"
    from stored_record_present [OF this, of st] obtain path
      where "device_record (hubs ! i) path i q found \<in> ?S"
      by blast
    then show "\<exists>r' \<in> ?S. hubIndex r' = DWORD_to_int i \<and> portNumber r' = q \<and>
         speed r' = map_speed (Speed found)"
      by (rule rev_bexI) (simp add: record_fields)
  qed
  from table other valid emitted body present show ?thesis
    by (intro conjI) (simp_all only:)
qed

theorem speed_mapping_total_witness:
  "map_speed 4 = - 1 \<and> map_speed 255 = - 1 \<and>
   g_devices after_scenario_B ! 1
     \<in> set (stored (snd (EnumerateUSBDevices (Some [scenario_B_hub]) initial_state))) \<and>
   portNumber (g_devices after_scenario_B ! 1) = 3 \<and>
   speed (g_devices after_scenario_B ! 1) = 1 \<and>
   map speed (stored (snd (EnumerateUSBDevices (Some [scenario_B_hub]) initial_state))) = [2, 1] \<and>
   (\<exists>k connInfo. k < length [scenario_B_hub] \<and>
      hubIndex (g_devices after_scenario_B ! 1) = DWORD_to_int k \<and>
      connection_info ([scenario_B_hub] ! k) (portNumber (g_devices after_scenario_B ! 1)) =
        Some connInfo \<and>
      ConnectionStatus connInfo = DeviceConnected \<and>
      speed (g_devices after_scenario_B ! 1) = map_speed (Speed connInfo))"
proof -
  have other: "(4 :: 8 word) \<notin> {UsbLowSpeed, UsbFullSpeed, UsbHighSpeed, UsbSuperSpeed}"
    "(255 :: 8 word) \<notin> {UsbLowSpeed, UsbFullSpeed, UsbHighSpeed, UsbSuperSpeed}"
    by (simp_all add: UsbLowSpeed_def UsbFullSpeed_def UsbHighSpeed_def UsbSuperSpeed_def)
  have mem: "g_devices after_scenario_B ! 1
      \<in> set (stored (snd (EnumerateUSBDevices (Some [scenario_B_hub]) initial_state)))"
    by code_simp
  have run: "portNumber (g_devices after_scenario_B ! 1) = 3"
    "speed (g_devices after_scenario_B ! 1) = 1"
    "map speed (stored (snd (EnumerateUSBDevices (Some [scenario_B_hub]) initial_state))) = [2, 1]"
    by code_simp+
  note at_4 = speed_mapping_total [of 4 "g_devices after_scenario_B ! 1" "[scenario_B_hub]"
      initial_state scenario_B_hub 3 empty_reply initial_state "[]" 0 0 3 empty_reply]
  note at_255 = speed_mapping_total [of 255 "g_devices after_scenario_B ! 1" "[scenario_B_hub]"
      initial_state scenario_B_hub 3 empty_reply initial_state "[]" 0 0 3 empty_reply]
  from at_4 have "(4 :: 8 word) \<notin> {UsbLowSpeed, UsbFullSpeed, UsbHighSpeed, UsbSuperSpeed} \<longrightarrow>
      map_speed 4 = - 1"
    by (elim conjE)
  with other(1) have a: "map_speed 4 = - 1"
    by (rule rev_mp)
  from at_255 have "(255 :: 8 word) \<notin> {UsbLowSpeed, UsbFullSpeed, UsbHighSpeed, UsbSuperSpeed} \<longrightarrow>
      map_speed 255 = - 1"
    by (elim conjE)
  with other(2) have b: "map_speed 255 = - 1"
    by (rule rev_mp)
  from at_4 have "g_devices after_scenario_B ! 1
      \<in> set (stored (snd (EnumerateUSBDevices (Some [scenario_B_hub]) initial_state))) \<longrightarrow>
    (\<exists>k connInfo. k < length [scenario_B_hub] \<and>
      hubIndex (g_devices after_scenario_B ! 1) = DWORD_to_int k \<and>
      portNumber (g_devices after_scenario_B ! 1) \<in> set (hub_ports ([scenario_B_hub] ! k)) \<and>
      connection_info ([scenario_B_hub] ! k) (portNumber (g_devices after_scenario_B ! 1)) =
        Some connInfo \<and>
      ConnectionStatus connInfo = DeviceConnected \<and>
      speed (g_devices after_scenario_B ! 1) = map_speed (Speed connInfo))"
    by (elim conjE)
  with mem have "\<exists>k connInfo. k < length [scenario_B_hub] \<and>
      hubIndex (g_devices after_scenario_B ! 1) = DWORD_to_int k \<and>
      portNumber (g_devices after_scenario_B ! 1) \<in> set (hub_ports ([scenario_B_hub] ! k)) \<and>
      connection_info ([scenario_B_hub] ! k) (portNumber (g_devices after_scenario_B ! 1)) =
        Some connInfo \<and>
      ConnectionStatus connInfo = DeviceConnected \<and>
      speed (g_devices after_scenario_B ! 1) = map_speed (Speed connInfo)"
    by (rule rev_mp)
  then have c: "\<exists>k connInfo. k < length [scenario_B_hub] \<and>
      hubIndex (g_devices after_scenario_B ! 1) = DWORD_to_int k \<and>
      connection_info ([scenario_B_hub] ! k) (portNumber (g_devices after_scenario_B ! 1)) =
        Some connInfo \<and>
      ConnectionStatus connInfo = DeviceConnected \<and>
      speed (g_devices after_scenario_B ! 1) = map_speed (Speed connInfo)"
    by blast
  from a b mem run c show ?thesis
    by (intro conjI)
qed

subsection \<open>C5: GetDeviceInfo and the index range\<close>

text \<open>
  Claim C5. For an index that is negative or not below the count, \<open>GetDeviceInfo\<close>
  returns 0 and leaves the output buffer as it was, so that no record is handed out. For an
  index from 0 to the count minus 1 (and an output buffer to copy to) it returns 1 and the
  buffer holds the stored record; after a pass that record is the record of the current
  pass at that position.
\<close>

theorem get_record_range:
  "(index < 0 \<or> GetDeviceCount st \<le> index \<longrightarrow> GetDeviceInfo st index out = (0, out, st)) \<and>
   (0 \<le> index \<and> index < GetDeviceCount st \<longrightarrow>
      GetDeviceInfo st index (Some buf) = (1, Some (g_devices st ! nat index), st) \<and>
      (st = snd (EnumerateUSBDevices (Some hubs) st0) \<longrightarrow>
         nat index < length (pass_records hubs) \<and>
         g_devices st ! nat index = pass_records hubs ! nat index))"
proof -
  have outside: "index < 0 \<or> GetDeviceCount st \<le> index \<longrightarrow> GetDeviceInfo st index out = (0, out, st)"
    by (auto simp: GetDeviceInfo_def GetDeviceCount_def)
  have inside: "GetDeviceInfo st index (Some buf) = (1, Some (g_devices st ! nat index), st)"
    if "0 \<le> index \<and> index < GetDeviceCount st"
    using that by (simp add: GetDeviceInfo_def GetDeviceCount_def)
  have fresh: "nat index < length (pass_records hubs) \<and>
      g_devices st ! nat index = pass_records hubs ! nat index"
    if "0 \<le> index \<and> index < GetDeviceCount st" and st: "st = snd (EnumerateUSBDevices (Some hubs) st0)"
  proof -
    from that have "index < int (min 256 (length (pass_records hubs)))"
      by (simp add: Enumerate_listed GetDeviceCount_def store_of_def)
    with that have "nat index < length (pass_records hubs)" "nat index < 256"
      by auto
    with st show ?thesis
      by (simp add: Enumerate_listed pass_records_index)
  qed
  from outside inside fresh show ?thesis
    by blast
qed

theorem get_record_range_witness:
  "GetDeviceInfo after_scenario_B 1 (Some zero_device) =
     (1, Some \<lparr>hubIndex = 0, portNumber = 3, deviceDesc = ''Hub: USB Root Hub, Port: 3'',
               devicePath = ''USB#ROOT_HUB30'', isHub = 0, speed = 1,
               vendorId = 0xAAAA, productId = 0xBBBB\<rparr>, after_scenario_B) \<and>
   GetDeviceInfo (snd (EnumerateUSBDevices (Some [one_device_hub]) after_scenario_B)) 1
       (Some zero_device) =
     (0, Some zero_device, snd (EnumerateUSBDevices (Some [one_device_hub]) after_scenario_B)) \<and>
   GetDeviceInfo after_scenario_B (- 1) (Some zero_device) =
     (0, Some zero_device, after_scenario_B)"
  using get_record_range [of 1 after_scenario_B "Some zero_device" zero_device "[scenario_B_hub]" initial_state]
    get_record_range [of 1 "snd (EnumerateUSBDevices (Some [one_device_hub]) after_scenario_B)"
      "Some zero_device" zero_device "[one_device_hub]" after_scenario_B]
    get_record_range [of "- 1" after_scenario_B "Some zero_device" zero_device "[]" initial_state]
  by (simp add: pass_eval)

subsection \<open>C6: hub indices follow the listing\<close>

text \<open>
  Claim C6. The hub loop handles the hubs in listing order and gives the hub at position
  \<open>k\<close> the index \<open>k\<close>, starting at 0, whether or not earlier hubs failed. A hub whose
  path resolution, open or node-information request fails leaves the store as it was, so
  no record of the pass carries its index; every record of the pass carries the listing
  position of a hub that did not fail, together with that hub's path, and as long as the
  capacity suffices every connected port of such a hub has a record with the hub's
  listing position. (The listing has at most \<open>2 ^ 31\<close> members.)
\<close>

theorem hub_index_sequential:
  assumes "length hubs \<le> 2 ^ 31"
  shows "hub_loop hubs 0 s = foldl (\<lambda>s (k, h). hub_body h k s) s (enumerate 0 hubs) \<and>
    (hub_failed h \<longrightarrow>
       g_devices (hub_body h j s) = g_devices s \<and> g_deviceCount (hub_body h j s) = g_deviceCount s) \<and>
    (\<forall>k < length hubs. hub_failed (hubs ! k) \<longrightarrow>
       (\<forall>r \<in> set (stored (snd (EnumerateUSBDevices (Some hubs) st))). hubIndex r \<noteq> int k)) \<and>
    (\<forall>r \<in> set (stored (snd (EnumerateUSBDevices (Some hubs) st))).
       \<exists>k path. k < length hubs \<and> hubIndex r = int k \<and> \<not> hub_failed (hubs ! k) \<and>
         interface_detail (hubs ! k) = Some path \<and> devicePath r = strncpy_path path \<and>
         portNumber r \<in> set (hub_ports (hubs ! k)) \<and> port_connected (hubs ! k) (portNumber r)) \<and>
    (length (connected_ports hubs) \<le> 256 \<longrightarrow>
       (\<forall>k p. k < length hubs \<and> p \<in> set (hub_ports (hubs ! k)) \<and> port_connected (hubs ! k) p \<longrightarrow>
          (\<exists>r \<in> set (stored (snd (EnumerateUSBDevices (Some hubs) st))).
             hubIndex r = int k \<and> portNumber r = p)))"
proof (intro conjI)
  let ?S = "set (stored (snd (EnumerateUSBDevices (Some hubs) st)))"
  show "hub_loop hubs 0 s = foldl (\<lambda>s (k, h). hub_body h k s) s (enumerate 0 hubs)"
    by (simp add: hub_loop_foldl)
  show "hub_failed h \<longrightarrow>
      g_devices (hub_body h j s) = g_devices s \<and> g_deviceCount (hub_body h j s) = g_deviceCount s"
    using hub_failed_body by blast
  show "\<forall>k < length hubs. hub_failed (hubs ! k) \<longrightarrow> (\<forall>r \<in> ?S. hubIndex r \<noteq> int k)"
  proof (intro allI impI ballI)
    fix k r
    assume k: "k < length hubs" and f: "hub_failed (hubs ! k)" and r: "r \<in> ?S"
    from stored_origin [OF assms r] obtain k' where "hubIndex r = int k'" "\<not> hub_failed (hubs ! k')"
      by blast
    with f show "hubIndex r \<noteq> int k"
      by auto
  qed
  show "\<forall>r \<in> ?S. \<exists>k path. k < length hubs \<and> hubIndex r = int k \<and> \<not> hub_failed (hubs ! k) \<and>
         interface_detail (hubs ! k) = Some path \<and> devicePath r = strncpy_path path \<and>
         portNumber r \<in> set (hub_ports (hubs ! k)) \<and> port_connected (hubs ! k) (portNumber r)"
    using stored_origin [OF assms] by blast
  show "length (connected_ports hubs) \<le> 256 \<longrightarrow>
       (\<forall>k p. k < length hubs \<and> p \<in> set (hub_ports (hubs ! k)) \<and> port_connected (hubs ! k) p \<longrightarrow>
          (\<exists>r \<in> ?S. hubIndex r = int k \<and> portNumber r = p))"
  proof (intro allI impI, elim conjE)
    fix k p
    assume all: "length (connected_ports hubs) \<le> 256" and k: "k < length hubs"
      and p: "p \<in> set (hub_ports (hubs ! k))" "port_connected (hubs ! k) p"
    from k assms have "DWORD_to_int k = int k"
      by (intro DWORD_to_int_small) simp
    with stored_present [OF all k p, of st] show "\<exists>r \<in> ?S. hubIndex r = int k \<and> portNumber r = p"
      by auto
  qed
qed

theorem hub_index_sequential_witness:
  "length scenario_C_hubs \<le> 2 ^ 31 \<and> hub_failed (scenario_C_hubs ! 1) \<and>
   map hubIndex (stored (snd (EnumerateUSBDevices (Some scenario_C_hubs) initial_state))) = [0, 2] \<and>
   1 \<notin> hubIndex ` set (stored (snd (EnumerateUSBDevices (Some scenario_C_hubs) initial_state)))"
proof -
  have h: "length scenario_C_hubs \<le> 2 ^ 31"
    by (simp add: scenario_C_hubs_def)
  have f: "1 < length scenario_C_hubs" "hub_failed (scenario_C_hubs ! 1)"
    by (simp_all add: scenario_C_hubs_def hub_failed_def)
  have s: "map hubIndex (stored (snd (EnumerateUSBDevices (Some scenario_C_hubs) initial_state))) = [0, 2]"
    by code_simp
  from hub_index_sequential [OF h, of initial_state scenario_B_hub 0 initial_state]
  have "\<forall>k < length scenario_C_hubs. hub_failed (scenario_C_hubs ! k) \<longrightarrow>
      (\<forall>r \<in> set (stored (snd (EnumerateUSBDevices (Some scenario_C_hubs) initial_state))).
         hubIndex r \<noteq> int k)"
    by (elim conjE)
  with f have "\<forall>r \<in> set (stored (snd (EnumerateUSBDevices (Some scenario_C_hubs) initial_state))).
      hubIndex r \<noteq> 1"
    by fastforce
  then have "1 \<notin> hubIndex ` set (stored (snd (EnumerateUSBDevices (Some scenario_C_hubs) initial_state)))"
    by auto
  with h f s show ?thesis
    by blast
qed

subsection \<open>C7: a skipped port affects nothing else\<close>

text \<open>
  Claim C7. Let the connection request of a port fail or return a status other than
  \<open>DeviceConnected\<close>. Then the loop body for this port leaves array and count as they
  were, no record of the pass carries the port's hub index and port number, the connection
  request is still sent to every port of every reachable hub, and the whole pass (return
  value, store and requests) is the same for every other answer of that port that is not
  \<open>DeviceConnected\<close> either, in particular for the failure that a request to a missing
  port gives.
\<close>

theorem skipped_port_isolated:
  assumes "k < length hubs" and "\<not> port_connected (hubs ! k) p"
    and "\<forall>connInfo. x = Some connInfo \<longrightarrow> ConnectionStatus connInfo \<noteq> DeviceConnected"
  shows "g_devices (port_body (hubs ! k) path k p s) = g_devices s \<and>
    g_deviceCount (port_body (hubs ! k) path k p s) = g_deviceCount s \<and>
    (length hubs \<le> 2 ^ 31 \<longrightarrow>
       (\<forall>r \<in> set (stored (snd (EnumerateUSBDevices (Some hubs) st))).
          \<not> (hubIndex r = int k \<and> portNumber r = p))) \<and>
    (\<forall>j q. j < length hubs \<and> q \<in> set (hub_ports (hubs ! j)) \<longrightarrow>
       (j, IOCTL_USB_GET_NODE_CONNECTION_INFORMATION_EX q)
         \<in> set (requests (snd (EnumerateUSBDevices (Some hubs) st)))) \<and>
    EnumerateUSBDevices (Some (hubs[k := with_port_answer (hubs ! k) p x y])) st =
      EnumerateUSBDevices (Some hubs) st"
proof (intro conjI)
  let ?S = "set (stored (snd (EnumerateUSBDevices (Some hubs) st)))"
  show "g_devices (port_body (hubs ! k) path k p s) = g_devices s"
    and "g_deviceCount (port_body (hubs ! k) path k p s) = g_deviceCount s"
    using port_body_skipped [OF assms(2)] by simp_all
  show "length hubs \<le> 2 ^ 31 \<longrightarrow> (\<forall>r \<in> ?S. \<not> (hubIndex r = int k \<and> portNumber r = p))"
  proof (intro impI ballI)
    fix r
    assume n: "length hubs \<le> 2 ^ 31" and r: "r \<in> ?S"
    from stored_origin [OF n r] obtain k' where "hubIndex r = int k'"
      "port_connected (hubs ! k') (portNumber r)"
      by blast
    with assms(2) show "\<not> (hubIndex r = int k \<and> portNumber r = p)"
      by auto
  qed
  show "\<forall>j q. j < length hubs \<and> q \<in> set (hub_ports (hubs ! j)) \<longrightarrow>
       (j, IOCTL_USB_GET_NODE_CONNECTION_INFORMATION_EX q)
         \<in> set (requests (snd (EnumerateUSBDevices (Some hubs) st)))"
    by (simp add: Enumerate_listed store_of_def in_pass_requests)
  show "EnumerateUSBDevices (Some (hubs[k := with_port_answer (hubs ! k) p x y])) st =
      EnumerateUSBDevices (Some hubs) st"
    by (simp only: Enumerate_listed pass_skipped [OF assms])
qed

theorem skipped_port_isolated_witness:
  "(0::nat) < length [scenario_B_hub] \<and> \<not> port_connected ([scenario_B_hub] ! 0) 2 \<and>
   EnumerateUSBDevices (Some ([scenario_B_hub][0 := with_port_answer ([scenario_B_hub] ! 0) 2 None lookup_failed]))
       initial_state =
     EnumerateUSBDevices (Some [scenario_B_hub]) initial_state \<and>
   map portNumber (stored (snd (EnumerateUSBDevices (Some [scenario_B_hub]) initial_state))) = [1, 3] \<and>
   (0, IOCTL_USB_GET_NODE_CONNECTION_INFORMATION_EX 3)
     \<in> set (requests (snd (EnumerateUSBDevices (Some [scenario_B_hub]) initial_state)))"
proof -
  have h1: "(0::nat) < length [scenario_B_hub]"
    by simp
  have h2: "\<not> port_connected ([scenario_B_hub] ! 0) 2"
    by (simp add: port_connected_def scenario_B_hub_def empty_reply_def)
  have h3: "\<forall>connInfo. (None :: USB_NODE_CONNECTION_INFORMATION_EX option) = Some connInfo \<longrightarrow>
      ConnectionStatus connInfo \<noteq> DeviceConnected"
    by simp
  have p: "map portNumber (stored (snd (EnumerateUSBDevices (Some [scenario_B_hub]) initial_state))) = [1, 3]"
    by code_simp
  have q: "(0::nat) < length [scenario_B_hub] \<and> 3 \<in> set (hub_ports ([scenario_B_hub] ! 0))"
    by (simp add: hub_ports_def scenario_B_hub_def)
  from skipped_port_isolated [OF h1 h2 h3, of "''''" initial_state initial_state lookup_failed] h1 h2 p q
  show ?thesis
    by blast
qed

subsection \<open>C8: a failed description lookup\<close>

text \<open>
  Claim C8 says that the description of a record is \<open>Hub: , Port: N\<close> whenever the
  description lookup fails. The program does not look at the return value of
  \<open>GetDeviceProperty\<close>: it formats whatever the call left in \<open>hubDesc\<close>. On a hub whose
  lookup fails after it has written \<open>PARTIAL\<close> to the buffer, the descriptions are
  \<open>Hub: PARTIAL, Port: 1\<close> and \<open>Hub: PARTIAL, Port: 3\<close>.
\<close>

theorem description_lookup_counterexample:
  "(0::nat) < length [partial_hub] \<and> 1 \<in> set (hub_ports ([partial_hub] ! 0)) \<and>
   port_connected ([partial_hub] ! 0) 1 \<and> \<not> fst (GetDeviceProperty ([partial_hub] ! 0) 1 []) \<and>
   fst (EnumerateUSBDevices (Some [partial_hub]) initial_state) = 2 \<and>
   map deviceDesc (stored (snd (EnumerateUSBDevices (Some [partial_hub]) initial_state))) =
     [''Hub: PARTIAL, Port: 1'', ''Hub: PARTIAL, Port: 3''] \<and>
   deviceDesc (g_devices (snd (EnumerateUSBDevices (Some [partial_hub]) initial_state)) ! 0) \<noteq>
     ''Hub: , Port: '' @ format_d 1"
  by code_simp

text \<open>
  Claim C8, amended. Let the description lookup fail for a connected port \<open>N\<close> of a
  reachable hub. Then the loop body for this port, when capacity remains, stores a record
  whose description is composed from what the call left in the zeroed buffer \<open>hubDesc\<close>;
  as long as the capacity of the store suffices for the pass, the pass keeps a record of
  this port with that description; the description is \<open>Hub: , Port: N\<close> when the buffer is
  still empty after the call; and the return value and the records of a pass, descriptions
  apart, are the same whatever the description lookups of the hub do, so that a lookup
  failure never removes a record.
\<close>

theorem description_lookup_best_effort:
  assumes "k < length hubs" and "p \<in> set (hub_ports (hubs ! k))"
    and "port_connected (hubs ! k) p"
    and "\<not> fst (GetDeviceProperty (hubs ! k) p [])"
  shows "(0 \<le> g_deviceCount s \<and> g_deviceCount s < MAX_DEVICES \<and>
       length (g_devices s) = nat MAX_DEVICES \<longrightarrow>
       g_deviceCount (port_body (hubs ! k) path k p s) = g_deviceCount s + 1 \<and>
       deviceDesc (g_devices (port_body (hubs ! k) path k p s) ! nat (g_deviceCount s)) =
         snprintf_desc (snd (GetDeviceProperty (hubs ! k) p [])) p) \<and>
    (length (connected_ports hubs) \<le> 256 \<longrightarrow>
       (\<exists>r \<in> set (stored (snd (EnumerateUSBDevices (Some hubs) st))).
          hubIndex r = DWORD_to_int k \<and> portNumber r = p \<and>
          deviceDesc r = snprintf_desc (snd (GetDeviceProperty (hubs ! k) p [])) p)) \<and>
    (snd (GetDeviceProperty (hubs ! k) p []) = [] \<longrightarrow>
       snprintf_desc (snd (GetDeviceProperty (hubs ! k) p [])) p = ''Hub: , Port: '' @ format_d p) \<and>
    fst (EnumerateUSBDevices (Some (hubs[k := (hubs ! k)\<lparr>device_desc := d\<rparr>])) st) =
      fst (EnumerateUSBDevices (Some hubs) st) \<and>
    map (\<lambda>r. r\<lparr>deviceDesc := []\<rparr>)
        (stored (snd (EnumerateUSBDevices (Some (hubs[k := (hubs ! k)\<lparr>device_desc := d\<rparr>])) st))) =
      map (\<lambda>r. r\<lparr>deviceDesc := []\<rparr>) (stored (snd (EnumerateUSBDevices (Some hubs) st)))"
proof (intro conjI)
  show "0 \<le> g_deviceCount s \<and> g_deviceCount s < MAX_DEVICES \<and>
       length (g_devices s) = nat MAX_DEVICES \<longrightarrow>
       g_deviceCount (port_body (hubs ! k) path k p s) = g_deviceCount s + 1 \<and>
       deviceDesc (g_devices (port_body (hubs ! k) path k p s) ! nat (g_deviceCount s)) =
         snprintf_desc (snd (GetDeviceProperty (hubs ! k) p [])) p"
    using port_body_connected [OF assms(3), of s path k] by blast
  show "length (connected_ports hubs) \<le> 256 \<longrightarrow>
       (\<exists>r \<in> set (stored (snd (EnumerateUSBDevices (Some hubs) st))).
          hubIndex r = DWORD_to_int k \<and> portNumber r = p \<and>
          deviceDesc r = snprintf_desc (snd (GetDeviceProperty (hubs ! k) p [])) p)"
    using stored_present [OF _ assms(1-3), of st] by blast
  show "snd (GetDeviceProperty (hubs ! k) p []) = [] \<longrightarrow>
       snprintf_desc (snd (GetDeviceProperty (hubs ! k) p [])) p = ''Hub: , Port: '' @ format_d p"
    using empty_description [OF assms(2)] by simp
  let ?hubs = "hubs[k := (hubs ! k)\<lparr>device_desc := d\<rparr>]"
  note eq = pass_records_description [OF assms(1), of d]
  from arg_cong [OF eq, of length] have len: "length (pass_records ?hubs) = length (pass_records hubs)"
    by simp
  show "fst (EnumerateUSBDevices (Some ?hubs) st) = fst (EnumerateUSBDevices (Some hubs) st)"
    by (simp add: Enumerate_listed len)
  from arg_cong [OF eq, of "take 256"]
  show "map (\<lambda>r. r\<lparr>deviceDesc := []\<rparr>) (stored (snd (EnumerateUSBDevices (Some ?hubs) st))) =
      map (\<lambda>r. r\<lparr>deviceDesc := []\<rparr>) (stored (snd (EnumerateUSBDevices (Some hubs) st)))"
    by (simp only: stored_pass take_map)
qed

theorem description_lookup_best_effort_witness:
  "(0::nat) < length [undescribed_hub] \<and> 3 \<in> set (hub_ports ([undescribed_hub] ! 0)) \<and>
   port_connected ([undescribed_hub] ! 0) 3 \<and> \<not> fst (GetDeviceProperty ([undescribed_hub] ! 0) 3 []) \<and>
   length (connected_ports [undescribed_hub]) \<le> 256 \<and>
   snd (GetDeviceProperty ([undescribed_hub] ! 0) 3 []) = [] \<and>
   (\<exists>r \<in> set (stored (snd (EnumerateUSBDevices (Some [undescribed_hub]) initial_state))).
      hubIndex r = 0 \<and> portNumber r = 3 \<and> deviceDesc r = ''Hub: , Port: 3'') \<and>
   map deviceDesc (stored (snd (EnumerateUSBDevices (Some [undescribed_hub]) initial_state))) =
     [''Hub: , Port: 1'', ''Hub: , Port: 3'']"
proof -
  have h1: "(0::nat) < length [undescribed_hub]"
    by simp
  have h2: "3 \<in> set (hub_ports ([undescribed_hub] ! 0))"
    by (simp add: hub_ports_def undescribed_hub_def scenario_B_hub_def)
  have h3: "port_connected ([undescribed_hub] ! 0) 3"
    by (simp add: port_connected_def undescribed_hub_def scenario_B_hub_def device_reply_def)
  have h4: "\<not> fst (GetDeviceProperty ([undescribed_hub] ! 0) 3 [])"
    by (simp add: GetDeviceProperty_def undescribed_hub_def lookup_failed_def)
  have e: "snd (GetDeviceProperty ([undescribed_hub] ! 0) 3 []) = []"
    by (simp add: GetDeviceProperty_def undescribed_hub_def lookup_failed_def)
  have n: "length (connected_ports [undescribed_hub]) \<le> 256"
    by code_simp
  have d: "map deviceDesc (stored (snd (EnumerateUSBDevices (Some [undescribed_hub]) initial_state))) =
     [''Hub: , Port: 1'', ''Hub: , Port: 3'']"
    by code_simp
  have f: "DWORD_to_int 0 = 0" "''Hub: , Port: '' @ format_d 3 = ''Hub: , Port: 3''"
    by (simp_all add: DWORD_to_int_def format_d_def decimal.simps digit_char_def)
  note at_3 = description_lookup_best_effort [OF h1 h2 h3 h4,
      of initial_state "[]" initial_state "\<lambda>p. lookup_failed"]
  from at_3 e have "snprintf_desc (snd (GetDeviceProperty ([undescribed_hub] ! 0) 3 [])) 3 =
      ''Hub: , Port: '' @ format_d 3"
    by blast
  moreover from at_3 n
  have "\<exists>r \<in> set (stored (snd (EnumerateUSBDevices (Some [undescribed_hub]) initial_state))).
      hubIndex r = DWORD_to_int 0 \<and> portNumber r = 3 \<and>
      deviceDesc r = snprintf_desc (snd (GetDeviceProperty ([undescribed_hub] ! 0) 3 [])) 3"
    by blast
  ultimately
  have "\<exists>r \<in> set (stored (snd (EnumerateUSBDevices (Some [undescribed_hub]) initial_state))).
      hubIndex r = 0 \<and> portNumber r = 3 \<and> deviceDesc r = ''Hub: , Port: 3''"
    by (simp only: f)
  with h1 h2 h3 h4 n e d show ?thesis
    by blast
qed

subsection \<open>C9: the store after a fatal return\<close>

text \<open>
  Claim C9. When the listing fails, \<open>EnumerateUSBDevices\<close> returns \<open>-1\<close> after it has
  cleared the store: the count is 0, every slot is zero and \<open>GetDeviceInfo\<close> returns 0
  for every index, so a store that held records has changed.
\<close>

theorem fatal_clears_store:
  "fst (EnumerateUSBDevices None st) = - 1 \<and>
   GetDeviceCount (snd (EnumerateUSBDevices None st)) = 0 \<and>
   g_devices (snd (EnumerateUSBDevices None st)) = replicate 256 zero_device \<and>
   GetDeviceInfo (snd (EnumerateUSBDevices None st)) index out =
     (0, out, snd (EnumerateUSBDevices None st)) \<and>
   (0 < GetDeviceCount st \<longrightarrow> snd (EnumerateUSBDevices None st) \<noteq> st)"
proof -
  have cleared: "g_deviceCount (snd (EnumerateUSBDevices None st)) = 0"
    by (simp add: Enumerate_failed store_of_def)
  then have "snd (EnumerateUSBDevices None st) \<noteq> st" if "0 < GetDeviceCount st"
    using that by (auto simp: GetDeviceCount_def)
  moreover have "g_devices (snd (EnumerateUSBDevices None st)) = replicate 256 zero_device"
    by (simp add: Enumerate_failed store_of_def)
  moreover have "fst (EnumerateUSBDevices None st) = - 1"
    by (simp add: Enumerate_failed)
  ultimately show ?thesis
    using cleared by (auto simp: GetDeviceInfo_def GetDeviceCount_def)
qed

theorem fatal_clears_store_witness:
  "fst (GetDeviceInfo after_scenario_B 0 (Some zero_device)) = 1 \<and>
   GetDeviceCount after_scenario_B = 2 \<and>
   fst (EnumerateUSBDevices None after_scenario_B) = - 1 \<and>
   GetDeviceCount (snd (EnumerateUSBDevices None after_scenario_B)) = 0 \<and>
   fst (GetDeviceInfo (snd (EnumerateUSBDevices None after_scenario_B)) 0 (Some zero_device)) = 0"
  using fatal_clears_store [of after_scenario_B 0 "Some zero_device"]
  by (simp add: pass_eval)

subsection \<open>C10: a null output pointer\<close>

text \<open>
  Claim C10. With a null output pointer \<open>GetDeviceInfo\<close> returns 0 for every index. The
  calls that return 0 are those with a null pointer or an index out of range, and each of
  them leaves the output buffer and the state as they were.
\<close>

theorem null_output_pointer:
  "GetDeviceInfo st index None = (0, None, st) \<and>
   (fst (GetDeviceInfo st index out) = 0 \<longleftrightarrow>
      index < 0 \<or> GetDeviceCount st \<le> index \<or> out = None) \<and>
   (fst (GetDeviceInfo st index out) = 0 \<longrightarrow> GetDeviceInfo st index out = (0, out, st))"
  by (simp add: GetDeviceInfo_def GetDeviceCount_def)

theorem null_output_pointer_witness:
  "GetDeviceInfo after_scenario_B 0 None = (0, None, after_scenario_B) \<and>
   GetDeviceInfo after_scenario_B 2 (Some zero_device) = (0, Some zero_device, after_scenario_B)"
  using null_output_pointer [of after_scenario_B 0 None]
    null_output_pointer [of after_scenario_B 2 "Some zero_device"]
  by (simp add: pass_eval)

end
